theory Spec2Isabelle
  imports Main "HOL-Library.AList"
begin

section \<open>Data model\<close>

text \<open>
  The development embeds the session layer of realtime-js: the adapter around the Phoenix
  transport (\<^verbatim>\<open>lib/phoenixAdapter.ts\<close>) and \<^verbatim>\<open>RealtimeClient\<close>. The client is a
  record that is passed through every operation and returned updated. Everything the client
  does to an external collaborator (the Phoenix socket and its channels, the user's
  callbacks, the timers) is appended to the field \<open>trace\<close>, oldest effect first.
\<close>

subsection \<open>JavaScript values\<close>

text \<open>
  Payloads and configuration objects. An object is an association list of its own
  properties, in insertion order.
\<close>

datatype jsval = JNull | JBool bool | JStr string | JObj "(string \<times> jsval) list"

type_synonym jsobj = "(string \<times> jsval) list"

text \<open>The object spread \<^verbatim>\<open>{...a, ...b}\<close>: the properties of \<open>a\<close>, then each property of
  \<open>b\<close> assigned in turn (an existing key keeps its place and takes the new value, a new key
  is appended).\<close>

definition spread :: "jsobj \<Rightarrow> jsobj \<Rightarrow> jsobj" where
  "spread a b = foldl (\<lambda>acc (k, v). AList.update k v acc) a b"

text \<open>Truthiness of a value of type \<^verbatim>\<open>string | null\<close>: \<^verbatim>\<open>null\<close> and the empty string
  are falsy.\<close>

fun truthy :: "string option \<Rightarrow> bool" where
  "truthy None = False"
| "truthy (Some t) = (t \<noteq> [])"

fun js_token :: "string option \<Rightarrow> jsval" where
  "js_token None = JNull"
| "js_token (Some t) = JStr t"

subsection \<open>Numbers\<close>

text \<open>
  The counter \<^verbatim>\<open>ref\<close> is a JavaScript number, an IEEE-754 double. It only ever holds
  non-negative integers, which are modelled as \<open>nat\<close>; the one place where the format
  matters is \<^verbatim>\<open>this.ref + 1\<close>, whose exact sum is rounded to the nearest double (ties to
  the even significand of 53 bits).
\<close>

fun bitlen :: "nat \<Rightarrow> nat" where
  "bitlen n = (if n = 0 then 0 else Suc (bitlen (n div 2)))"

declare bitlen.simps [simp del]

definition round_double :: "nat \<Rightarrow> nat" where
  "round_double x =
     (if x < 2 ^ 53 then x
      else let e = bitlen x - 53;
               q = x div 2 ^ e;
               r = x mod 2 ^ e;
               h = 2 ^ (e - 1)
           in (if h < r \<or> (r = h \<and> odd q) then q + 1 else q) * 2 ^ e)"

definition js_plus :: "nat \<Rightarrow> nat \<Rightarrow> nat" where
  "js_plus a b = round_double (a + b)"

text \<open>\<^verbatim>\<open>Number.prototype.toString\<close> on a non-negative integer below \<open>10\<^sup>2\<^sup>1\<close>: its decimal
  digits.\<close>

definition digit_char :: "nat \<Rightarrow> char" where
  "digit_char d = ''0123456789'' ! d"

fun toString :: "nat \<Rightarrow> string" where
  "toString n = (if n < 10 then [digit_char n] else toString (n div 10) @ [digit_char (n mod 10)])"

declare toString.simps [simp del]

text \<open>The number that a string of decimal digits denotes.\<close>

definition fromString :: "string \<Rightarrow> nat" where
  "fromString cs = foldl (\<lambda>acc c. 10 * acc + (of_char c - 48)) 0 cs"

subsection \<open>Constants of \<^verbatim>\<open>lib/constants\<close>\<close>

text \<open>The module \<^verbatim>\<open>lib/constants\<close> is imported by the client but its values are not part
  of the sources at hand, so the three constants the client uses are parameters.\<close>

record constants =
  WS_CLOSE_NORMAL :: int
  DEFAULT_VERSION :: string
  CHANNEL_EVENTS_access_token :: string

subsection \<open>Transport, channels, client\<close>

datatype CONNECTION_STATE = Connecting | Open | Closing | Closed

datatype HeartbeatStatus = HB_sent | HB_ok | HB_error | HB_timeout | HB_disconnected

datatype RealtimeRemoveChannelResponse = R_ok | R_timed_out | R_error

datatype RealtimeMessage = RealtimeMessage string string jsobj string

type_synonym addr = nat

text \<open>\<^verbatim>\<open>RealtimeChannelOptions\<close>: an object with the property \<^verbatim>\<open>config\<close> (\<open>None\<close> when it
  is undefined). Options objects live in a store, since the adapter writes into the
  caller's object.\<close>

record RealtimeChannelOptions =
  config :: "jsobj option"

type_synonym options_store = "addr \<rightharpoonup> RealtimeChannelOptions"

text \<open>The adapter \<^verbatim>\<open>PhoenixChannel\<close> around a Phoenix channel: the topic and the params
  object the channel was created with, and the Phoenix channel's \<^verbatim>\<open>joinedOnce\<close> flag
  (Phoenix refuses a push on a channel that has never joined).\<close>

record PhoenixChannel =
  ch_topic :: string
  ch_params :: addr
  joinedOnce :: bool

record RealtimeChannel =
  oid :: nat
  topic :: string
  phoenixChannel :: PhoenixChannel

datatype task = HeartbeatTimeoutFallback

datatype effect =
    SocketConnect
  | SocketDisconnect "int option" "string option"
  | SocketPush RealtimeMessage
  | SocketLog string string "jsval option"
  | HeartbeatCallback HeartbeatStatus
  | AccessTokenCall
  | UpdateJoinPayload nat jsobj
  | ChannelPush nat string jsobj
  | ChannelLeave nat
  | SetTimeout task nat
  | ScheduleTimeout

text \<open>
  The client. \<open>socket\<close> is what the transport reports as its connection state;
  \<open>heartbeatCallback\<close> returns \<open>Some e\<close> when the user's callback throws \<open>e\<close>;
  \<open>accessToken\<close> says whether a token provider is registered (the token a call of the
  provider yields arrives later, as the argument of \<open>accessToken_settles\<close>);
  \<open>authPromise\<close> is \<^verbatim>\<open>_authPromise\<close>, a promise being named by a number.
  The remaining fields are the bookkeeping of the embedding: the options store, the next
  fresh object and promise identities, the \<^verbatim>\<open>_performAuth\<close> calls suspended at
  \<^verbatim>\<open>await this.accessToken()\<close>, the promises of \<^verbatim>\<open>_performAuth\<close> that have settled (with
  \<open>Some e\<close> for one rejected with \<open>e\<close>), the \<^verbatim>\<open>setAuth\<close> calls suspended at
  \<^verbatim>\<open>await this._authPromise\<close>, and the \<^verbatim>\<open>setAuth\<close> calls whose promise has the
  \<^verbatim>\<open>catch\<close> handler of \<^verbatim>\<open>_setAuthSafely\<close>, with the handler's context.
  The transport changes \<open>socket\<close> on its own, between two operations of the client; no
  operation of the client writes it. Fields of the class that none of the methods below
  reads or writes after construction (the endpoints, headers, params, timeout, transport
  constructor, heartbeat interval, log level, fetch and worker settings) are left out.
\<close>

record RealtimeClient =
  socket :: CONNECTION_STATE
  accessTokenValue :: "string option"
  apiKey :: "string option"
  channels :: "RealtimeChannel list"
  pendingHeartbeatRef :: "string option"
  heartbeatCallback :: "HeartbeatStatus \<Rightarrow> string option"
  ref :: nat
  reconnectTimer :: bool
  accessToken :: bool
  wasManualDisconnect :: bool
  authPromise :: "nat option"
  trace :: "effect list"
  options :: options_store
  next_addr :: nat
  next_oid :: nat
  next_promise :: nat
  awaiting_accessToken :: "nat list"
  settled :: "(nat \<times> string option) list"
  awaiting_authPromise :: "nat list"
  catch_handlers :: "(nat \<times> string) list"

section \<open>Construction\<close>

text \<open>
  The constructor of \<^verbatim>\<open>RealtimeClient\<close> with \<^verbatim>\<open>_initializeOptions\<close>, for the fields of the
  embedding: \<open>opt_apikey\<close> is \<^verbatim>\<open>options.params.apikey\<close>. A fresh Phoenix socket reports
  the connection state \<^verbatim>\<open>closed\<close>.
\<close>

record RealtimeClientOptions =
  opt_apikey :: "string option"
  opt_accessToken :: bool
  opt_heartbeatCallback :: "(HeartbeatStatus \<Rightarrow> string option) option"

datatype error = ApiKeyRequired | TypeError

definition noop :: "HeartbeatStatus \<Rightarrow> string option" where
  "noop st = None"

definition new_RealtimeClient :: "RealtimeClientOptions option \<Rightarrow> error + RealtimeClient" where
  "new_RealtimeClient opts =
     (case opts of
        None \<Rightarrow> Inl ApiKeyRequired
      | Some opt \<Rightarrow>
          if \<not> truthy (opt_apikey opt) then Inl ApiKeyRequired
          else Inr \<lparr> socket = Closed,
                     accessTokenValue = None,
                     apiKey = opt_apikey opt,
                     channels = [],
                     pendingHeartbeatRef = None,
                     heartbeatCallback =
                       (case opt_heartbeatCallback opt of None \<Rightarrow> noop | Some f \<Rightarrow> f),
                     ref = 0,
                     reconnectTimer = True,
                     accessToken = opt_accessToken opt,
                     wasManualDisconnect = False,
                     authPromise = None,
                     trace = [],
                     options = Map.empty,
                     next_addr = 0,
                     next_oid = 0,
                     next_promise = 0,
                     awaiting_accessToken = [],
                     settled = [],
                     awaiting_authPromise = [],
                     catch_handlers = [] \<rparr>)"

text \<open>The client of \<^verbatim>\<open>new RealtimeClient(url, {params: {apikey: "k"}})\<close>.\<close>

definition client0 :: RealtimeClient where
  "client0 = \<lparr> socket = Closed, accessTokenValue = None, apiKey = Some ''k'', channels = [],
     pendingHeartbeatRef = None, heartbeatCallback = noop, ref = 0, reconnectTimer = True,
     accessToken = False, wasManualDisconnect = False, authPromise = None, trace = [],
     options = Map.empty, next_addr = 0, next_oid = 0, next_promise = 0,
     awaiting_accessToken = [], settled = [], awaiting_authPromise = [],
     catch_handlers = [] \<rparr>"

section \<open>Ref generator\<close>

text \<open>\<^verbatim>\<open>RealtimeClient._makeRef\<close>.\<close>

definition makeRef :: "RealtimeClient \<Rightarrow> string \<times> RealtimeClient" where
  "makeRef s =
     (let newRef = js_plus (ref s) 1;
          s' = (if newRef = ref s then s\<lparr>ref := 0\<rparr> else s\<lparr>ref := newRef\<rparr>)
      in (toString (ref s'), s'))"

text \<open>\<open>n\<close> calls of \<^verbatim>\<open>_makeRef\<close> one after the other, with their results in call order.\<close>

fun makeRefs :: "nat \<Rightarrow> RealtimeClient \<Rightarrow> string list \<times> RealtimeClient" where
  "makeRefs 0 s = ([], s)"
| "makeRefs (Suc n) s =
     (let (rs, s1) = makeRefs n s; (r, s2) = makeRef s1 in (rs @ [r], s2))"

section \<open>Transport adapter\<close>

text \<open>\<^verbatim>\<open>PhoenixSocket\<close>: each method hands its arguments to the Phoenix socket.\<close>

definition emit :: "effect list \<Rightarrow> RealtimeClient \<Rightarrow> RealtimeClient" where
  "emit es s = s\<lparr>trace := trace s @ es\<rparr>"

definition PhoenixSocket_connect :: "RealtimeClient \<Rightarrow> RealtimeClient" where
  "PhoenixSocket_connect s = emit [SocketConnect] s"

definition PhoenixSocket_disconnect ::
  "RealtimeClient \<Rightarrow> int option \<Rightarrow> string option \<Rightarrow> RealtimeClient" where
  "PhoenixSocket_disconnect s code reason = emit [SocketDisconnect code reason] s"

definition PhoenixSocket_log ::
  "RealtimeClient \<Rightarrow> string \<Rightarrow> string \<Rightarrow> jsval option \<Rightarrow> RealtimeClient" where
  "PhoenixSocket_log s kind msg data = emit [SocketLog kind msg data] s"

definition PhoenixSocket_push :: "RealtimeClient \<Rightarrow> RealtimeMessage \<Rightarrow> RealtimeClient" where
  "PhoenixSocket_push s data = emit [SocketPush data] s"

text \<open>\<^verbatim>\<open>translateRealtimeOptionsToChannelParams\<close>. The argument is the address of the
  options object; an address that holds no object stands for a caller that passed
  \<^verbatim>\<open>null\<close>, on which the assignment raises a \<^verbatim>\<open>TypeError\<close>.\<close>

definition default_config :: jsobj where
  "default_config =
     [(''broadcast'', JObj [(''ack'', JBool False), (''self'', JBool False)]),
      (''presence'', JObj [(''key'', JStr []), (''enabled'', JBool False)]),
      (''private'', JBool False)]"

text \<open>The own properties of \<^verbatim>\<open>options.config\<close>, none when it is undefined.\<close>

definition config_entries :: "RealtimeChannelOptions \<Rightarrow> jsobj" where
  "config_entries opts = (case config opts of None \<Rightarrow> [] | Some c \<Rightarrow> c)"

definition translateRealtimeOptionsToChannelParams ::
  "options_store \<Rightarrow> addr \<Rightarrow> error + options_store \<times> addr" where
  "translateRealtimeOptionsToChannelParams h a =
     (case h a of
        None \<Rightarrow> Inl TypeError
      | Some opts \<Rightarrow>
          Inr (h(a \<mapsto> opts\<lparr>config := Some (spread default_config (config_entries opts))\<rparr>),
               a))"

text \<open>The constructor of \<^verbatim>\<open>PhoenixChannel\<close>. A channel made by \<^verbatim>\<open>socket.channel\<close> has not
  joined yet.\<close>

definition new_PhoenixChannel ::
  "options_store \<Rightarrow> string \<Rightarrow> addr \<Rightarrow> error + options_store \<times> PhoenixChannel" where
  "new_PhoenixChannel h tpc params =
     (case translateRealtimeOptionsToChannelParams h params of
        Inl e \<Rightarrow> Inl e
      | Inr (h', phoenixParams) \<Rightarrow>
          Inr (h', \<lparr>ch_topic = tpc, ch_params = phoenixParams, joinedOnce = False\<rparr>))"

text \<open>\<^verbatim>\<open>PhoenixChannel.push\<close>: the push of the Phoenix channel raises on a channel that has
  never joined, and the adapter throws a message of its own in its place.\<close>

definition push_before_join :: "string \<Rightarrow> string \<Rightarrow> string" where
  "push_before_join event tpc =
     ''tried to push '' @ [CHR 0x27] @ event @ [CHR 0x27] @ '' to '' @ [CHR 0x27] @ tpc
     @ [CHR 0x27] @ '' before joining. Use channel.subscribe() before pushing events''"

definition PhoenixChannel_push ::
  "RealtimeClient \<Rightarrow> RealtimeChannel \<Rightarrow> string \<Rightarrow> jsobj \<Rightarrow> string + RealtimeClient" where
  "PhoenixChannel_push s c event payload =
     (if joinedOnce (phoenixChannel c) then Inr (emit [ChannelPush (oid c) event payload] s)
      else Inl (push_before_join event (ch_topic (phoenixChannel c))))"

definition PhoenixChannel_updateJoinPayload ::
  "RealtimeClient \<Rightarrow> RealtimeChannel \<Rightarrow> jsobj \<Rightarrow> RealtimeClient" where
  "PhoenixChannel_updateJoinPayload s c payload = emit [UpdateJoinPayload (oid c) payload] s"

definition PhoenixChannel_unsubscribe :: "RealtimeClient \<Rightarrow> RealtimeChannel \<Rightarrow> RealtimeClient" where
  "PhoenixChannel_unsubscribe s c = emit [ChannelLeave (oid c)] s"

section \<open>Connection manager\<close>

definition log :: "RealtimeClient \<Rightarrow> string \<Rightarrow> string \<Rightarrow> jsval option \<Rightarrow> RealtimeClient" where
  "log s kind msg data = PhoenixSocket_log s kind msg data"

definition isConnected :: "RealtimeClient \<Rightarrow> bool" where
  "isConnected s = (socket s = Open)"

definition isConnecting :: "RealtimeClient \<Rightarrow> bool" where
  "isConnecting s = (socket s = Connecting)"

definition isDisconnecting :: "RealtimeClient \<Rightarrow> bool" where
  "isDisconnecting s = (socket s = Closing)"

definition disconnect :: "RealtimeClient \<Rightarrow> int option \<Rightarrow> string option \<Rightarrow> RealtimeClient" where
  "disconnect s code reason =
     (if isDisconnecting s then s else PhoenixSocket_disconnect s code reason)"

definition getChannels :: "RealtimeClient \<Rightarrow> RealtimeChannel list" where
  "getChannels s = channels s"

definition push :: "RealtimeClient \<Rightarrow> RealtimeMessage \<Rightarrow> RealtimeClient" where
  "push s data = PhoenixSocket_push s data"

text \<open>\<^verbatim>\<open>_remove\<close>.\<close>

definition client_remove :: "RealtimeClient \<Rightarrow> RealtimeChannel \<Rightarrow> RealtimeClient" where
  "client_remove s ch = s\<lparr>channels := filter (\<lambda>c. topic c \<noteq> topic ch) (channels s)\<rparr>"

subsection \<open>Channel sessions\<close>

text \<open>The caller creating an options object.\<close>

definition alloc_options :: "RealtimeClient \<Rightarrow> RealtimeChannelOptions \<Rightarrow> addr \<times> RealtimeClient" where
  "alloc_options s opts =
     (next_addr s, s\<lparr>options := (options s)(next_addr s \<mapsto> opts), next_addr := next_addr s + 1\<rparr>)"

text \<open>
  Modelled from the spec: the constructor of \<^verbatim>\<open>RealtimeChannel\<close>, whose file
  \<^verbatim>\<open>RealtimeChannel.ts\<close> is not among the sources. A channel session has a topic, unique
  within the session, and a configuration; the client and \<^verbatim>\<open>RealtimePresence\<close> reach its
  transport channel as \<^verbatim>\<open>channel.phoenixChannel\<close>, which is built by the constructor of
  \<^verbatim>\<open>PhoenixChannel\<close> from the topic and the options.
\<close>

definition new_RealtimeChannel ::
  "RealtimeClient \<Rightarrow> string \<Rightarrow> addr \<Rightarrow> error + RealtimeChannel \<times> RealtimeClient" where
  "new_RealtimeChannel s tpc params =
     (case new_PhoenixChannel (options s) tpc params of
        Inl e \<Rightarrow> Inl e
      | Inr (h', pc) \<Rightarrow>
          Inr (\<lparr>oid = next_oid s, topic = tpc, phoenixChannel = pc\<rparr>,
               s\<lparr>options := h', next_oid := next_oid s + 1\<rparr>))"

text \<open>\<^verbatim>\<open>RealtimeClient.channel\<close>. An omitted second argument is a fresh
  \<^verbatim>\<open>{ config: {} }\<close>, made on entry.\<close>

definition channel ::
  "RealtimeClient \<Rightarrow> string \<Rightarrow> addr option \<Rightarrow> error + RealtimeChannel \<times> RealtimeClient" where
  "channel s tpc params_arg =
     (let (params, s0) = (case params_arg of
                            Some a \<Rightarrow> (a, s)
                          | None \<Rightarrow> alloc_options s \<lparr>config = Some []\<rparr>);
          realtimeTopic = ''realtime:'' @ tpc
      in case find (\<lambda>c. topic c = realtimeTopic) (getChannels s0) of
           Some exists \<Rightarrow> Inr (exists, s0)
         | None \<Rightarrow>
             (case new_RealtimeChannel s0 (''realtime:'' @ tpc) params of
                Inl e \<Rightarrow> Inl e
              | Inr (chan, s1) \<Rightarrow> Inr (chan, s1\<lparr>channels := channels s1 @ [chan]\<rparr>)))"

text \<open>
  Modelled from the spec: \<^verbatim>\<open>RealtimeChannel.unsubscribe\<close> (\<^verbatim>\<open>RealtimeChannel.ts\<close> is not
  among the sources). Unsubscribing a session sends the leave to its transport channel,
  awaits the acknowledgment, and yields it as the status \<^verbatim>\<open>"ok" | "timed out" | "error"\<close>;
  a session is removed from the registry when the application unsubscribes it, whatever
  the outcome of the leave. The acknowledgment of the transport is the argument \<open>ack\<close>, the
  leave is \<^verbatim>\<open>PhoenixChannel.unsubscribe\<close> and the removal is \<^verbatim>\<open>_remove\<close>.
\<close>

definition unsubscribe ::
  "RealtimeClient \<Rightarrow> RealtimeChannel \<Rightarrow> RealtimeRemoveChannelResponse
     \<Rightarrow> RealtimeRemoveChannelResponse \<times> RealtimeClient" where
  "unsubscribe s ch ack = (ack, client_remove (PhoenixChannel_unsubscribe s ch) ch)"

text \<open>
  Modelled from the spec: \<^verbatim>\<open>RealtimeChannel.updateJoinPayload\<close> (\<^verbatim>\<open>RealtimeChannel.ts\<close> is
  not among the sources): it updates the join payload of the session's transport channel,
  so that later joins carry it, which is \<^verbatim>\<open>PhoenixChannel.updateJoinPayload\<close>.
\<close>

definition updateJoinPayload :: "RealtimeClient \<Rightarrow> RealtimeChannel \<Rightarrow> jsobj \<Rightarrow> RealtimeClient" where
  "updateJoinPayload s c payload = PhoenixChannel_updateJoinPayload s c payload"

text \<open>\<^verbatim>\<open>removeChannel\<close>; the \<^verbatim>\<open>await\<close> is taken in one step with the call.\<close>

definition removeChannel ::
  "RealtimeClient \<Rightarrow> RealtimeChannel \<Rightarrow> RealtimeRemoveChannelResponse
     \<Rightarrow> RealtimeRemoveChannelResponse \<times> RealtimeClient" where
  "removeChannel s ch ack =
     (let (status, s1) = unsubscribe s ch ack;
          s2 = (if length (channels s1) = 0 then disconnect s1 None None else s1)
      in (status, s2))"

text \<open>\<^verbatim>\<open>removeAllChannels\<close>. \<^verbatim>\<open>Promise.all\<close> over the mapped registry yields the statuses
  in the order of the registry; \<open>ack\<close> gives the acknowledgment each channel receives. The
  leaves are all sent before the first acknowledgment arrives; as a leave only extends the
  trace and a removal only filters the registry, taking them channel by channel gives the
  same client.\<close>

fun unsubscribe_all ::
  "RealtimeClient \<Rightarrow> RealtimeChannel list \<Rightarrow> (RealtimeChannel \<Rightarrow> RealtimeRemoveChannelResponse)
     \<Rightarrow> RealtimeRemoveChannelResponse list \<times> RealtimeClient" where
  "unsubscribe_all s [] ack = ([], s)"
| "unsubscribe_all s (c # cs) ack =
     (let (st, s1) = unsubscribe s c (ack c);
          (sts, s2) = unsubscribe_all s1 cs ack
      in (st # sts, s2))"

definition removeAllChannels ::
  "RealtimeClient \<Rightarrow> (RealtimeChannel \<Rightarrow> RealtimeRemoveChannelResponse)
     \<Rightarrow> RealtimeRemoveChannelResponse list \<times> RealtimeClient" where
  "removeAllChannels s ack =
     (let (values_1, s1) = unsubscribe_all s (channels s) ack;
          s2 = s1\<lparr>channels := []\<rparr>
      in (values_1, disconnect s2 None None))"

section \<open>Auth synchronizer\<close>

text \<open>
  An \<^verbatim>\<open>async\<close> function runs up to its first \<^verbatim>\<open>await\<close> inside the call and is resumed
  by the event loop later. Each piece is one function of the embedding: the call of
  \<^verbatim>\<open>setAuth\<close> with the part of \<^verbatim>\<open>_performAuth\<close> before
  \<^verbatim>\<open>await this.accessToken()\<close> (\<open>setAuth\<close>, \<open>performAuth\<close>), the rest of \<^verbatim>\<open>_performAuth\<close>
  once the token is known (\<open>performAuth_resume\<close>), the promise of the token provider
  settling (\<open>accessToken_settles\<close>), and the \<^verbatim>\<open>finally\<close> block of \<^verbatim>\<open>setAuth\<close>
  (\<open>setAuth_finally\<close>).
\<close>

definition settle :: "nat \<Rightarrow> string option \<Rightarrow> RealtimeClient \<Rightarrow> RealtimeClient" where
  "settle p outcome s = s\<lparr>settled := settled s @ [(p, outcome)]\<rparr>"

text \<open>The body of the \<^verbatim>\<open>forEach\<close> in \<^verbatim>\<open>_performAuth\<close>, for one channel.\<close>

definition auth_channel ::
  "constants \<Rightarrow> string option \<Rightarrow> RealtimeClient \<Rightarrow> RealtimeChannel \<Rightarrow> RealtimeClient" where
  "auth_channel K tokenToSend s c =
     (let payload = [(''access_token'', js_token tokenToSend),
                     (''version'', JStr (DEFAULT_VERSION K))];
          s1 = (if truthy tokenToSend then updateJoinPayload s c payload else s)
      in case PhoenixChannel_push s1 c (CHANNEL_EVENTS_access_token K)
                [(''access_token'', js_token tokenToSend)] of
           Inr s2 \<Rightarrow>
             log s2 ''auth'' ''pushed access token''
               (Some (JObj [(''token'', js_token tokenToSend)]))
         | Inl e \<Rightarrow> log s1 ''auth'' ''error pushing access token'' (Some (JStr e)))"

text \<open>What the body of the \<^verbatim>\<open>forEach\<close> adds to the trace for one channel: the update of the
  join payload when the token is truthy, then either the push and its log line, or the log
  line of the \<^verbatim>\<open>catch\<close> when the push throws.\<close>

definition auth_effects :: "constants \<Rightarrow> string option \<Rightarrow> RealtimeChannel \<Rightarrow> effect list" where
  "auth_effects K tokenToSend c =
     (if truthy tokenToSend
      then [UpdateJoinPayload (oid c)
              [(''access_token'', js_token tokenToSend),
               (''version'', JStr (DEFAULT_VERSION K))]]
      else [])
     @ (if joinedOnce (phoenixChannel c)
        then [ChannelPush (oid c) (CHANNEL_EVENTS_access_token K)
                [(''access_token'', js_token tokenToSend)],
              SocketLog ''auth'' ''pushed access token''
                (Some (JObj [(''token'', js_token tokenToSend)]))]
        else [SocketLog ''auth'' ''error pushing access token''
                (Some (JStr (push_before_join (CHANNEL_EVENTS_access_token K)
                               (ch_topic (phoenixChannel c)))))])"

text \<open>\<^verbatim>\<open>_performAuth\<close> from the line that logs \<^verbatim>\<open>performing auth\<close> on.\<close>

definition performAuth_resume ::
  "constants \<Rightarrow> RealtimeClient \<Rightarrow> string option \<Rightarrow> RealtimeClient" where
  "performAuth_resume K s tokenToSend =
     (let s1 = log s ''auth'' ''performing auth''
                 (Some (JObj [(''token'', js_token tokenToSend)]))
      in if accessTokenValue s1 \<noteq> tokenToSend
         then foldl (auth_channel K tokenToSend) (s1\<lparr>accessTokenValue := tokenToSend\<rparr>)
                (channels s1)
         else s1)"

text \<open>\<^verbatim>\<open>_performAuth\<close> up to its \<^verbatim>\<open>await\<close>; \<open>p\<close> names the promise it returns.\<close>

definition performAuth ::
  "constants \<Rightarrow> RealtimeClient \<Rightarrow> string option \<Rightarrow> nat \<Rightarrow> RealtimeClient" where
  "performAuth K s token p =
     (if truthy token then settle p None (performAuth_resume K s token)
      else if accessToken s
      then (emit [AccessTokenCall] s)\<lparr>awaiting_accessToken := awaiting_accessToken s @ [p]\<rparr>
      else settle p None (performAuth_resume K s (accessTokenValue s)))"

text \<open>The promise that the token provider returned to the operation \<open>p\<close> settles: fulfilled
  with a token (\<open>Inr\<close>) or rejected (\<open>Inl\<close>).\<close>

definition accessToken_settles ::
  "constants \<Rightarrow> RealtimeClient \<Rightarrow> nat \<Rightarrow> string + string option \<Rightarrow> RealtimeClient" where
  "accessToken_settles K s p r =
     (if p \<notin> set (awaiting_accessToken s) then s
      else let s1 = s\<lparr>awaiting_accessToken := removeAll p (awaiting_accessToken s)\<rparr>
           in case r of
                Inr tokenToSend \<Rightarrow> settle p None (performAuth_resume K s1 tokenToSend)
              | Inl e \<Rightarrow> settle p (Some e) s1)"

text \<open>\<^verbatim>\<open>setAuth\<close> up to \<^verbatim>\<open>await this._authPromise\<close>. The result names the call.\<close>

definition setAuth ::
  "constants \<Rightarrow> RealtimeClient \<Rightarrow> string option \<Rightarrow> nat \<times> RealtimeClient" where
  "setAuth K s token =
     (let p = next_promise s;
          s1 = performAuth K (s\<lparr>next_promise := p + 1\<rparr>) token p
      in (p, s1\<lparr>authPromise := Some p, awaiting_authPromise := awaiting_authPromise s1 @ [p]\<rparr>))"

text \<open>The \<^verbatim>\<open>finally\<close> block of the call \<open>p\<close> of \<^verbatim>\<open>setAuth\<close>, which runs once the promise the
  call awaits has settled, followed by the \<^verbatim>\<open>catch\<close> handler of \<^verbatim>\<open>_setAuthSafely\<close> when
  the call has one and the promise was rejected.\<close>

definition setAuth_finally :: "RealtimeClient \<Rightarrow> nat \<Rightarrow> RealtimeClient" where
  "setAuth_finally s p =
     (if p \<in> set (awaiting_authPromise s)
      then case map_of (settled s) p of
             None \<Rightarrow> s
           | Some outcome \<Rightarrow>
               let s1 = s\<lparr>authPromise := None,
                          awaiting_authPromise := removeAll p (awaiting_authPromise s)\<rparr>
               in (case (outcome, map_of (catch_handlers s) p) of
                     (Some e, Some context) \<Rightarrow>
                       log s1 ''error'' (''error setting auth in '' @ context) (Some (JStr e))
                   | _ \<Rightarrow> s1)
      else s)"

text \<open>\<^verbatim>\<open>_setAuthSafely\<close>.\<close>

definition setAuthSafely :: "constants \<Rightarrow> RealtimeClient \<Rightarrow> string \<Rightarrow> RealtimeClient" where
  "setAuthSafely K s context =
     (let (p, s1) = setAuth K s None
      in s1\<lparr>catch_handlers := catch_handlers s1 @ [(p, context)]\<rparr>)"

text \<open>\<^verbatim>\<open>connect\<close>.\<close>

definition connect :: "constants \<Rightarrow> RealtimeClient \<Rightarrow> RealtimeClient" where
  "connect K s =
     (if isConnecting s \<or> isDisconnecting s \<or> isConnected s then s
      else let s1 = (if accessToken s \<and> authPromise s = None
                     then setAuthSafely K s ''connect'' else s)
           in PhoenixSocket_connect s1)"

section \<open>Heartbeat monitor\<close>

definition HEARTBEAT_TIMEOUT_FALLBACK :: nat where
  "HEARTBEAT_TIMEOUT_FALLBACK = 100"

text \<open>\<^verbatim>\<open>onHeartbeat\<close>.\<close>

definition onHeartbeat ::
  "RealtimeClient \<Rightarrow> (HeartbeatStatus \<Rightarrow> string option) \<Rightarrow> RealtimeClient" where
  "onHeartbeat s callback = s\<lparr>heartbeatCallback := callback\<rparr>"

text \<open>The call of the heartbeat callback inside its \<^verbatim>\<open>try\<close>, with the \<^verbatim>\<open>catch\<close> that
  logs what the callback throws.\<close>

definition report :: "RealtimeClient \<Rightarrow> HeartbeatStatus \<Rightarrow> RealtimeClient" where
  "report s st =
     (let s1 = emit [HeartbeatCallback st] s
      in case heartbeatCallback s st of
           None \<Rightarrow> s1
         | Some e \<Rightarrow> log s1 ''error'' ''error in heartbeat callback'' (Some (JStr e)))"

text \<open>What a call of the heartbeat callback with \<open>st\<close> adds to the trace.\<close>

definition report_effects :: "RealtimeClient \<Rightarrow> HeartbeatStatus \<Rightarrow> effect list" where
  "report_effects s st =
     HeartbeatCallback st #
     (case heartbeatCallback s st of
        None \<Rightarrow> []
      | Some e \<Rightarrow> [SocketLog ''error'' ''error in heartbeat callback'' (Some (JStr e))])"

text \<open>\<^verbatim>\<open>sendHeartbeat\<close>.\<close>

definition sendHeartbeat :: "constants \<Rightarrow> RealtimeClient \<Rightarrow> RealtimeClient" where
  "sendHeartbeat K s =
     (if \<not> isConnected s then report s HB_disconnected
      else if truthy (pendingHeartbeatRef s) then
        let s1 = s\<lparr>pendingHeartbeatRef := None\<rparr>;
            s2 = log s1 ''transport''
                   ''heartbeat timeout. Attempting to re-establish connection'' None;
            s3 = report s2 HB_timeout;
            s4 = s3\<lparr>wasManualDisconnect := False\<rparr>;
            s5 = PhoenixSocket_disconnect s4 (Some (WS_CLOSE_NORMAL K))
                   (Some ''heartbeat timeout'')
        in emit [SetTimeout HeartbeatTimeoutFallback HEARTBEAT_TIMEOUT_FALLBACK] s5
      else
        let (r, s1) = makeRef s;
            s2 = s1\<lparr>pendingHeartbeatRef := Some r\<rparr>;
            s3 = push s2 (RealtimeMessage ''phoenix'' ''heartbeat'' [] r);
            s4 = report s3 HB_sent
        in setAuthSafely K s4 ''heartbeat'')"

text \<open>The function that \<^verbatim>\<open>sendHeartbeat\<close> hands to \<^verbatim>\<open>setTimeout\<close>, run by the event loop
  after the delay.\<close>

definition heartbeat_timeout_fallback :: "RealtimeClient \<Rightarrow> RealtimeClient" where
  "heartbeat_timeout_fallback s =
     (if \<not> isConnected s then (if reconnectTimer s then emit [ScheduleTimeout] s else s)
      else s)"

fun run_task :: "task \<Rightarrow> RealtimeClient \<Rightarrow> RealtimeClient" where
  "run_task HeartbeatTimeoutFallback s = heartbeat_timeout_fallback s"

text \<open>The constants as they are in the published library, for the examples.\<close>

definition K0 :: constants where
  "K0 = \<lparr>WS_CLOSE_NORMAL = 1000, DEFAULT_VERSION = ''realtime-js/0.0.0'',
          CHANNEL_EVENTS_access_token = ''access_token''\<rparr>"

text \<open>The effects that a client has added to its trace since it was the client \<open>s\<close>.\<close>

definition effects_since :: "RealtimeClient \<Rightarrow> RealtimeClient \<Rightarrow> effect list" where
  "effects_since s s' = drop (length (trace s)) (trace s')"

section \<open>Histories of a client\<close>

text \<open>
  What can happen to a client, one event at a time: a call of one of its methods by the
  application or by a channel session (\<^verbatim>\<open>_remove\<close>), the application making an options
  object, a continuation or a timer function being run by the event loop, the transport
  reporting another connection state, and a channel completing its first join. A call of
  \<^verbatim>\<open>channel\<close> that throws leaves the client as it was.
\<close>

datatype event =
    Connect
  | Disconnect "int option" "string option"
  | GetChannel string "addr option"
  | RemoveChannel RealtimeChannel RealtimeRemoveChannelResponse
  | RemoveAllChannels "RealtimeChannel \<Rightarrow> RealtimeRemoveChannelResponse"
  | Push RealtimeMessage
  | SetAuth "string option"
  | SendHeartbeat
  | OnHeartbeat "HeartbeatStatus \<Rightarrow> string option"
  | Remove RealtimeChannel
  | NewOptions RealtimeChannelOptions
  | AccessTokenSettles nat "string + string option"
  | SetAuthFinally nat
  | RunTask task
  | TransportState CONNECTION_STATE
  | ChannelJoined nat

fun step :: "constants \<Rightarrow> RealtimeClient \<Rightarrow> event \<Rightarrow> RealtimeClient" where
  "step K s Connect = connect K s"
| "step K s (Disconnect code reason) = disconnect s code reason"
| "step K s (GetChannel t params) =
     (case channel s t params of Inl e \<Rightarrow> s | Inr (c, s') \<Rightarrow> s')"
| "step K s (RemoveChannel ch ack) = snd (removeChannel s ch ack)"
| "step K s (RemoveAllChannels ack) = snd (removeAllChannels s ack)"
| "step K s (Push data) = push s data"
| "step K s (SetAuth token) = snd (setAuth K s token)"
| "step K s SendHeartbeat = sendHeartbeat K s"
| "step K s (OnHeartbeat callback) = onHeartbeat s callback"
| "step K s (Remove ch) = client_remove s ch"
| "step K s (NewOptions opts) = snd (alloc_options s opts)"
| "step K s (AccessTokenSettles p r) = accessToken_settles K s p r"
| "step K s (SetAuthFinally p) = setAuth_finally s p"
| "step K s (RunTask t) = run_task t s"
| "step K s (TransportState st) = s\<lparr>socket := st\<rparr>"
| "step K s (ChannelJoined i) =
     s\<lparr>channels :=
         map (\<lambda>c. if oid c = i
                  then c\<lparr>phoenixChannel := (phoenixChannel c)\<lparr>joinedOnce := True\<rparr>\<rparr>
                  else c)
           (channels s)\<rparr>"

definition run :: "constants \<Rightarrow> RealtimeClient \<Rightarrow> event list \<Rightarrow> RealtimeClient" where
  "run K s es = foldl (step K) s es"

section \<open>Example clients\<close>

text \<open>A connected client whose last heartbeat, with the ref \<^verbatim>\<open>"1"\<close>, has had no reply.\<close>

definition client_pending :: RealtimeClient where
  "client_pending = client0\<lparr>socket := Open, pendingHeartbeatRef := Some ''1'', ref := 1\<rparr>"

text \<open>The channel session and the client after \<^verbatim>\<open>client.channel("lobby", {config: {}})\<close> on
  the client \<open>client0\<close>, the options object being at the address 0.\<close>

definition lobby :: RealtimeChannel where
  "lobby = \<lparr>oid = 0, topic = ''realtime:lobby'',
            phoenixChannel = \<lparr>ch_topic = ''realtime:lobby'', ch_params = 0, joinedOnce = False\<rparr>\<rparr>"

definition client_lobby :: RealtimeClient where
  "client_lobby =
     client0\<lparr>channels := [lobby], options := [0 \<mapsto> \<lparr>config = Some default_config\<rparr>],
             next_addr := 1, next_oid := 1\<rparr>"

text \<open>A second session, which has joined, and a client with both.\<close>

definition room :: RealtimeChannel where
  "room = \<lparr>oid = 1, topic = ''realtime:room'',
           phoenixChannel = \<lparr>ch_topic = ''realtime:room'', ch_params = 1, joinedOnce = True\<rparr>\<rparr>"

definition client_two :: RealtimeClient where
  "client_two =
     client_lobby\<lparr>channels := [lobby, room],
                  options := [0 \<mapsto> \<lparr>config = Some default_config\<rparr>,
                              1 \<mapsto> \<lparr>config = Some default_config\<rparr>],
                  next_addr := 2, next_oid := 2\<rparr>"

text \<open>The client with both sessions, a token provider and the stored token \<^verbatim>\<open>"abc"\<close>.\<close>

definition client_auth :: RealtimeClient where
  "client_auth = client_two\<lparr>accessToken := True, accessTokenValue := Some ''abc''\<rparr>"

text \<open>The options \<^verbatim>\<open>{config: {private: true}}\<close>.\<close>

definition private_options :: RealtimeChannelOptions where
  "private_options = \<lparr>config = Some [(''private'', JBool True)]\<rparr>"

text \<open>The client \<open>client_two\<close> with a token provider after two calls of \<^verbatim>\<open>setAuth()\<close> in a
  row: two operations wait for the provider.\<close>

definition client_waiting :: RealtimeClient where
  "client_waiting =
     client_two\<lparr>accessToken := True, next_promise := 2,
                 trace := [AccessTokenCall, AccessTokenCall],
                 awaiting_accessToken := [0, 1], authPromise := Some 1,
                 awaiting_authPromise := [0, 1]\<rparr>"

section \<open>Construction and traces\<close>

lemma client0_constructed:
  "new_RealtimeClient (Some \<lparr>opt_apikey = Some ''k'', opt_accessToken = False,
      opt_heartbeatCallback = None\<rparr>) = Inr client0"
  by (simp add: new_RealtimeClient_def client0_def)

lemma new_RealtimeClient_requires_key:
  "new_RealtimeClient None = Inl ApiKeyRequired"
  "new_RealtimeClient (Some (opt\<lparr>opt_apikey := None\<rparr>)) = Inl ApiKeyRequired"
  "new_RealtimeClient (Some (opt\<lparr>opt_apikey := Some []\<rparr>)) = Inl ApiKeyRequired"
  by (simp_all add: new_RealtimeClient_def)

lemma emit_emit: "emit es (emit fs s) = emit (fs @ es) s"
  by (simp add: emit_def)

lemma emit_Nil: "emit [] s = s"
  by (simp add: emit_def)

lemma trace_emit: "trace (emit es s) = trace s @ es"
  by (simp add: emit_def)

lemma effects_since_emit: "effects_since s (emit es s) = es"
  by (simp add: effects_since_def emit_def)

lemma effects_since_trace: "trace s' = trace s @ es \<Longrightarrow> effects_since s s' = es"
  by (simp add: effects_since_def)

section \<open>Properties of the ref generator\<close>

lemma bitlen_pow2: "bitlen (2 ^ n) = Suc n"
proof (induction n)
  case 0
  have "bitlen (Suc 0) = Suc (bitlen 0)" by (subst bitlen.simps) simp
  also have "bitlen 0 = 0" by (subst bitlen.simps) simp
  finally show ?case by simp
next
  case (Suc n)
  have "bitlen (2 ^ Suc n) = Suc (bitlen (2 ^ Suc n div 2))"
    by (subst bitlen.simps) simp
  with Suc show ?case by simp
qed

lemma bitlen_pow2_plus1: "bitlen (2 ^ Suc n + 1) = Suc (Suc n)"
proof -
  have "bitlen (2 ^ Suc n + 1) = Suc (bitlen ((2 ^ Suc n + 1) div 2))"
    by (subst bitlen.simps) simp
  moreover have "(2 ^ Suc n + 1) div 2 = (2::nat) ^ n" by simp
  ultimately show ?thesis by (simp only: bitlen_pow2)
qed

lemma round_double_exact: "x \<le> 2 ^ 53 \<Longrightarrow> round_double x = x"
proof (cases "x < 2 ^ 53")
  case True
  then show ?thesis by (simp add: round_double_def)
next
  case False
  assume "x \<le> 2 ^ 53"
  with False have x: "x = 2 ^ 53" by simp
  have b: "bitlen (2 ^ 53) = 54" using bitlen_pow2 [of 53] by simp
  show ?thesis unfolding x round_double_def Let_def b by simp
qed

lemma round_double_tie: "round_double (2 ^ 53 + 1) = 2 ^ 53"
proof -
  have b: "bitlen (2 ^ 53 + 1) = 54" using bitlen_pow2_plus1 [of 52] by simp
  show ?thesis unfolding round_double_def Let_def b by simp
qed

lemma js_plus_one: "n \<le> 2 ^ 53 \<Longrightarrow> js_plus n 1 = (if n = 2 ^ 53 then n else n + 1)"
proof (cases "n = 2 ^ 53")
  case True
  then show ?thesis unfolding js_plus_def using round_double_tie by simp
next
  case False
  assume "n \<le> 2 ^ 53"
  with False have "n + 1 \<le> 2 ^ 53" by simp
  then have "round_double (n + 1) = n + 1" by (rule round_double_exact)
  with False show ?thesis by (simp add: js_plus_def)
qed

lemma fromString_snoc: "fromString (cs @ [c]) = 10 * fromString cs + (of_char c - 48)"
  by (simp add: fromString_def)

lemma digit_cases: "d < 10 \<Longrightarrow> d = 0 \<or> d = 1 \<or> d = 2 \<or> d = 3 \<or> d = 4 \<or> d = 5 \<or> d = 6 \<or> d = 7 \<or> d = 8 \<or> d = (9::nat)"
  by arith

lemma of_char_digit: "d < 10 \<Longrightarrow> of_char (digit_char d) = 48 + d"
  using digit_cases [of d] by (auto simp: digit_char_def)

lemma fromString_toString: "fromString (toString n) = n"
proof (induction n rule: toString.induct)
  case (1 n)
  show ?case
  proof (cases "n < 10")
    case True
    then show ?thesis
      by (simp add: toString.simps [of n] fromString_def of_char_digit)
  next
    case False
    with 1 have "fromString (toString (n div 10)) = n div 10" by simp
    with False show ?thesis
      by (simp add: toString.simps [of n] fromString_snoc of_char_digit)
  qed
qed

lemma toString_inj: "toString m = toString n \<Longrightarrow> m = n"
  by (metis fromString_toString)

lemma digit_char_digit: "d < 10 \<Longrightarrow> digit_char d \<in> set ''0123456789''"
  using digit_cases [of d] by (auto simp: digit_char_def)

lemma toString_digits: "toString n \<noteq> [] \<and> set (toString n) \<subseteq> set ''0123456789''"
proof (induction n rule: toString.induct)
  case (1 n)
  show ?case
  proof (cases "n < 10")
    case True
    then show ?thesis using digit_char_digit [of n]
      by (simp add: toString.simps [of n])
  next
    case False
    with 1 have "set (toString (n div 10)) \<subseteq> set ''0123456789''" by simp
    moreover have "digit_char (n mod 10) \<in> set ''0123456789''"
      by (rule digit_char_digit) simp
    ultimately show ?thesis using False
      by (simp add: toString.simps [of n])
  qed
qed


lemma toString_digit: "n < 10 \<Longrightarrow> toString n = [digit_char n]"
  by (subst toString.simps) simp

lemma toString_examples:
  "toString 0 = ''0''" "toString (Suc 0) = ''1''" "toString 1 = ''1''" "toString 2 = ''2''"
  "toString 3 = ''3''" "toString (Suc (Suc 0)) = ''2''" "toString (Suc (Suc (Suc 0))) = ''3''"
  by (simp_all add: toString_digit digit_char_def)

lemma makeRef_reachable:
  assumes "ref s \<le> 2 ^ 53"
  shows "makeRef s = (toString (if ref s = 2 ^ 53 then 0 else ref s + 1),
                      s\<lparr>ref := (if ref s = 2 ^ 53 then 0 else ref s + 1)\<rparr>)"
  using js_plus_one [OF assms] by (simp add: makeRef_def Let_def)

lemma makeRefs_invariant:
  "ref s0 = 0 \<Longrightarrow> makeRefs n s0 = (rs, s) \<Longrightarrow>
     ref s \<le> 2 ^ 53 \<and> (rs \<noteq> [] \<longrightarrow> last rs = toString (ref s))"
proof (induction n arbitrary: rs s)
  case 0
  then show ?case by simp
next
  case (Suc n)
  obtain rs1 s1 where m: "makeRefs n s0 = (rs1, s1)" by (cases "makeRefs n s0")
  with Suc have le: "ref s1 \<le> 2 ^ 53" by blast
  from Suc.prems(2) m makeRef_reachable [OF le]
  have "rs = rs1 @ [toString (ref s)]" and "ref s = (if ref s1 = 2 ^ 53 then 0 else ref s1 + 1)"
    by auto
  with le show ?case by auto
qed

lemma makeRefs_count: "ref s0 = 0 \<Longrightarrow> n \<le> 2 ^ 53 \<Longrightarrow> ref (snd (makeRefs n s0)) = n"
proof (induction n)
  case 0
  then show ?case by simp
next
  case (Suc n)
  then have r: "ref (snd (makeRefs n s0)) = n" and lt: "n < 2 ^ 53" by simp_all
  then have le: "ref (snd (makeRefs n s0)) \<le> 2 ^ 53" by simp
  show ?case using makeRef_reachable [OF le] r lt
    by (simp add: case_prod_unfold Let_def)
qed

lemma makeRefs_wrap:
  assumes "ref s0 = 0"
  shows "fst (makeRef (snd (makeRefs (2 ^ 53) s0))) = ''0''"
proof -
  have r: "ref (snd (makeRefs (2 ^ 53) s0)) = 2 ^ 53"
    using makeRefs_count [OF assms, of "2 ^ 53"] by simp
  then have "ref (snd (makeRefs (2 ^ 53) s0)) \<le> 2 ^ 53" by simp
  from makeRef_reachable [OF this] r show ?thesis
    by (simp add: toString_examples)
qed

text \<open>
  Claim C8. In every sequence of calls of \<^verbatim>\<open>_makeRef\<close> that starts from the counter 0, a
  call changes the counter only; it adds one to it and returns the decimal form of the new
  value, except when the sum \<^verbatim>\<open>ref + 1\<close> is the stored value again (which on such a
  sequence happens at \<open>2\<^sup>5\<^sup>3\<close> and nowhere else): then the counter becomes 0 and the
  result is \<^verbatim>\<open>"0"\<close>. The result differs from the result of the call before it, and it
  is a non-empty string of decimal digits.
\<close>

theorem makeRef_sequence:
  assumes "ref s0 = 0" and "makeRefs n s0 = (rs, s)" and "makeRef s = (r, s')"
  shows "s' = s\<lparr>ref := ref s'\<rparr>
       \<and> ref s' = (if js_plus (ref s) 1 = ref s then 0 else ref s + 1)
       \<and> (js_plus (ref s) 1 = ref s \<longleftrightarrow> ref s = 2 ^ 53)
       \<and> r = toString (ref s')
       \<and> (js_plus (ref s) 1 = ref s \<longrightarrow> r = ''0'')
       \<and> (rs \<noteq> [] \<longrightarrow> last rs \<noteq> r)
       \<and> r \<noteq> [] \<and> set r \<subseteq> set ''0123456789''"
proof -
  from makeRefs_invariant [OF assms(1,2)]
  have le: "ref s \<le> 2 ^ 53" and lst: "rs \<noteq> [] \<longrightarrow> last rs = toString (ref s)" by simp_all
  from makeRef_reachable [OF le] assms(3)
  have r: "r = toString (ref s')"
    and s': "s' = s\<lparr>ref := (if ref s = 2 ^ 53 then 0 else ref s + 1)\<rparr>" by simp_all
  have rf: "ref s' = (if ref s = 2 ^ 53 then 0 else ref s + 1)"
    by (subst s') simp
  have wrap: "js_plus (ref s) 1 = ref s \<longleftrightarrow> ref s = 2 ^ 53"
    using js_plus_one [OF le] by simp
  have ne: "ref s' \<noteq> ref s" using rf by (simp split: if_splits)
  have "last rs \<noteq> r" if "rs \<noteq> []"
  proof
    assume "last rs = r"
    with lst that r have "toString (ref s) = toString (ref s')" by simp
    then show False using ne toString_inj [of "ref s" "ref s'"] by simp
  qed
  moreover have "r = ''0''" if "js_plus (ref s) 1 = ref s"
    using that wrap rf r by (simp add: toString_examples)
  moreover have "s' = s\<lparr>ref := ref s'\<rparr>" using s' rf by simp
  ultimately show ?thesis using r rf wrap toString_digits [of "ref s'"] by simp
qed


lemma makeRef_client0:
  "makeRef (client0\<lparr>ref := 0\<rparr>) = (''1'', client0\<lparr>ref := 1\<rparr>)"
  "makeRef (client0\<lparr>ref := 1\<rparr>) = (''2'', client0\<lparr>ref := 2\<rparr>)"
  "makeRef (client0\<lparr>ref := 2\<rparr>) = (''3'', client0\<lparr>ref := 3\<rparr>)"
  "makeRef (client0\<lparr>ref := Suc 0\<rparr>) = (''2'', client0\<lparr>ref := 2\<rparr>)"
  by (simp_all add: makeRef_reachable toString_examples)

theorem makeRef_sequence_witness:
  "ref (client0\<lparr>ref := 0\<rparr>) = 0
   \<and> makeRefs (Suc (Suc 0)) (client0\<lparr>ref := 0\<rparr>) = ([''1'', ''2''], client0\<lparr>ref := 2\<rparr>)
   \<and> makeRef (client0\<lparr>ref := 2\<rparr>) = (''3'', client0\<lparr>ref := 3\<rparr>)
   \<and> ref (client0\<lparr>ref := 3\<rparr>) = ref (client0\<lparr>ref := 2\<rparr>) + 1
   \<and> last [''1'', ''2''] \<noteq> ''3''
   \<and> ref (snd (makeRefs (2 ^ 53) (client0\<lparr>ref := 0\<rparr>))) = 2 ^ 53
   \<and> js_plus (2 ^ 53) 1 = 2 ^ 53
   \<and> fst (makeRef (snd (makeRefs (2 ^ 53) (client0\<lparr>ref := 0\<rparr>)))) = ''0''
   \<and> ref (snd (makeRef (snd (makeRefs (2 ^ 53) (client0\<lparr>ref := 0\<rparr>))))) = 0"
proof -
  let ?c = "client0\<lparr>ref := 0\<rparr>"
  let ?s = "snd (makeRefs (2 ^ 53) ?c)"
  have z: "ref ?c = 0" by simp
  have w1: "ref ?s = 2 ^ 53" using makeRefs_count [OF z, of "2 ^ 53"] by simp
  have w2: "js_plus (2 ^ 53) 1 = 2 ^ 53" using js_plus_one [of "2 ^ 53"] by simp
  have p1: "makeRefs (2 ^ 53) ?c = (fst (makeRefs (2 ^ 53) ?c), ?s)" by simp
  have p2: "makeRef ?s = (fst (makeRef ?s), snd (makeRef ?s))" by simp
  note wrap = makeRef_sequence [OF z p1 p2]
  from w1 w2 have w3: "js_plus (ref ?s) 1 = ref ?s" by simp
  from wrap w3 have w4: "fst (makeRef ?s) = ''0''" by blast
  from wrap have "ref (snd (makeRef ?s))
      = (if js_plus (ref ?s) 1 = ref ?s then 0 else ref ?s + 1)" by blast
  with w3 have w5: "ref (snd (makeRef ?s)) = 0" by (simp only: if_True refl)
  have a: "ref (client0\<lparr>ref := 0\<rparr>) = 0" by simp
  have b: "makeRefs (Suc (Suc 0)) (client0\<lparr>ref := 0\<rparr>) = ([''1'', ''2''], client0\<lparr>ref := 2\<rparr>)"
    by (simp add: makeRef_client0)
  have c: "makeRef (client0\<lparr>ref := 2\<rparr>) = (''3'', client0\<lparr>ref := 3\<rparr>)"
    by (rule makeRef_client0)
  from makeRef_sequence [OF a b c] have d: "last [''1'', ''2''] \<noteq> ''3''"
    by (simp add: toString_examples)
  have e: "ref (client0\<lparr>ref := 3\<rparr>) = ref (client0\<lparr>ref := 2\<rparr>) + 1" by simp
  from a b c d e w1 w2 w4 w5 show ?thesis by blast
qed

section \<open>Properties of the heartbeat monitor\<close>

lemma report_eq: "report s st = emit (report_effects s st) s"
  by (simp add: report_def report_effects_def log_def PhoenixSocket_log_def emit_def
      split: option.splits)

text \<open>
  Claim C5. When the client is not connected, \<^verbatim>\<open>sendHeartbeat\<close> calls the heartbeat
  callback with \<^verbatim>\<open>disconnected\<close> (and logs the error if the callback throws) and does
  nothing else: no message is pushed, and the client is the one before the call but for
  the trace; the pending heartbeat ref, the ref counter and the stored token are as before.
\<close>

theorem sendHeartbeat_disconnected:
  assumes "\<not> isConnected s"
  shows "sendHeartbeat K s = s\<lparr>trace := trace s @ report_effects s HB_disconnected\<rparr>
       \<and> hd (effects_since s (sendHeartbeat K s)) = HeartbeatCallback HB_disconnected
       \<and> (\<forall>m. SocketPush m \<notin> set (effects_since s (sendHeartbeat K s)))
       \<and> pendingHeartbeatRef (sendHeartbeat K s) = pendingHeartbeatRef s
       \<and> ref (sendHeartbeat K s) = ref s
       \<and> accessTokenValue (sendHeartbeat K s) = accessTokenValue s"
proof -
  have eq: "sendHeartbeat K s = emit (report_effects s HB_disconnected) s"
    using assms by (simp add: sendHeartbeat_def report_eq)
  have "\<forall>m. SocketPush m \<notin> set (report_effects s HB_disconnected)"
    by (simp add: report_effects_def split: option.splits)
  then show ?thesis
    unfolding eq effects_since_emit by (simp add: emit_def report_effects_def)
qed

theorem sendHeartbeat_disconnected_witness:
  "\<not> isConnected client0
   \<and> sendHeartbeat K0 client0 = client0\<lparr>trace := [HeartbeatCallback HB_disconnected]\<rparr>"
proof -
  have a: "\<not> isConnected client0" by (simp add: isConnected_def client0_def)
  have "report_effects client0 HB_disconnected = [HeartbeatCallback HB_disconnected]"
    by (simp add: report_effects_def client0_def noop_def)
  moreover have "trace client0 = []" by (simp add: client0_def)
  ultimately show ?thesis using sendHeartbeat_disconnected [OF a, of K0] a by simp
qed

lemma performAuth_resume_same:
  "accessTokenValue s = tok \<Longrightarrow>
   performAuth_resume K s tok =
     emit [SocketLog ''auth'' ''performing auth'' (Some (JObj [(''token'', js_token tok)]))] s"
  by (simp add: performAuth_resume_def log_def PhoenixSocket_log_def emit_def Let_def)

text \<open>A call of \<^verbatim>\<open>setAuth()\<close> without a token adds one effect before it suspends: the call
  of the token provider if there is one, the log line of \<^verbatim>\<open>_performAuth\<close> otherwise.\<close>

lemma trace_setAuthSafely:
  "trace (setAuthSafely K s context) =
     trace s @ [if accessToken s then AccessTokenCall
                else SocketLog ''auth'' ''performing auth''
                       (Some (JObj [(''token'', js_token (accessTokenValue s))]))]"
  by (simp add: setAuthSafely_def setAuth_def performAuth_def Let_def settle_def
      performAuth_resume_same emit_def)

lemma makeRef_fields:
  "trace (snd (makeRef s)) = trace s" "accessToken (snd (makeRef s)) = accessToken s"
  "accessTokenValue (snd (makeRef s)) = accessTokenValue s"
  "heartbeatCallback (snd (makeRef s)) = heartbeatCallback s"
  by (simp_all add: makeRef_def Let_def)

lemma trace_sendHeartbeat_sent:
  assumes "isConnected t" and "\<not> truthy (pendingHeartbeatRef t)"
  shows "trace (sendHeartbeat K t) =
           trace t @ [SocketPush (RealtimeMessage ''phoenix'' ''heartbeat'' [] (fst (makeRef t)))]
           @ report_effects t HB_sent
           @ [if accessToken t then AccessTokenCall
              else SocketLog ''auth'' ''performing auth''
                     (Some (JObj [(''token'', js_token (accessTokenValue t))]))]"
  using assms
  by (simp add: sendHeartbeat_def case_prod_unfold Let_def trace_setAuthSafely report_eq
      push_def PhoenixSocket_push_def emit_def makeRef_fields report_effects_def)

lemma pendingHeartbeatRef_sent:
  assumes "isConnected t" and "\<not> truthy (pendingHeartbeatRef t)"
  shows "pendingHeartbeatRef (sendHeartbeat K t) = Some (fst (makeRef t))"
  using assms
  by (simp add: sendHeartbeat_def case_prod_unfold Let_def setAuthSafely_def setAuth_def
      performAuth_def settle_def performAuth_resume_same report_eq push_def
      PhoenixSocket_push_def emit_def makeRef_fields)

lemma makeRef_nonempty: "fst (makeRef s) \<noteq> []"
  using toString_digits by (simp add: makeRef_def Let_def)

lemma timeout_branch_eq:
  assumes "isConnected s" and "truthy (pendingHeartbeatRef s)"
  shows "sendHeartbeat K s =
           s\<lparr>pendingHeartbeatRef := None, wasManualDisconnect := False,
             trace := trace s
               @ [SocketLog ''transport''
                    ''heartbeat timeout. Attempting to re-establish connection'' None]
               @ report_effects s HB_timeout
               @ [SocketDisconnect (Some (WS_CLOSE_NORMAL K)) (Some ''heartbeat timeout''),
                  SetTimeout HeartbeatTimeoutFallback 100]\<rparr>"
  using assms
  by (simp add: sendHeartbeat_def Let_def report_eq log_def PhoenixSocket_log_def
      PhoenixSocket_disconnect_def emit_def report_effects_def HEARTBEAT_TIMEOUT_FALLBACK_def)

text \<open>
  Claim C4. When the client is connected and a heartbeat ref is pending (a non-empty
  string), \<^verbatim>\<open>sendHeartbeat\<close> clears the pending ref, logs the timeout, calls the heartbeat
  callback with \<^verbatim>\<open>timeout\<close>, sets the manual-disconnect flag to false, tells the transport
  to close with \<^verbatim>\<open>WS_CLOSE_NORMAL\<close> and the reason \<^verbatim>\<open>heartbeat timeout\<close>, and hands a
  function to \<^verbatim>\<open>setTimeout\<close> with the delay 100; it changes nothing else. That function,
  whenever it runs, calls \<^verbatim>\<open>scheduleTimeout\<close> of the reconnection timer if the client is
  not connected then, and does nothing if it is connected. A call of \<^verbatim>\<open>sendHeartbeat\<close> on
  a connected client without a pending ref, such as the client after the timeout once the
  transport is open again, pushes a heartbeat and calls the callback with \<^verbatim>\<open>sent\<close>, and
  does not call it with \<^verbatim>\<open>timeout\<close>; the ref it leaves pending is a non-empty string.
\<close>

theorem sendHeartbeat_timeout:
  assumes "isConnected s" and "truthy (pendingHeartbeatRef s)"
  shows "sendHeartbeat K s =
           s\<lparr>pendingHeartbeatRef := None, wasManualDisconnect := False,
             trace := trace s
               @ [SocketLog ''transport''
                    ''heartbeat timeout. Attempting to re-establish connection'' None]
               @ report_effects s HB_timeout
               @ [SocketDisconnect (Some (WS_CLOSE_NORMAL K)) (Some ''heartbeat timeout''),
                  SetTimeout HeartbeatTimeoutFallback 100]\<rparr>
       \<and> pendingHeartbeatRef (sendHeartbeat K s) = None
       \<and> wasManualDisconnect (sendHeartbeat K s) = False
       \<and> hd (report_effects s HB_timeout) = HeartbeatCallback HB_timeout
       \<and> (\<forall>t. run_task HeartbeatTimeoutFallback t =
                (if \<not> isConnected t \<and> reconnectTimer t then emit [ScheduleTimeout] t else t))
       \<and> (\<forall>t. isConnected t \<and> \<not> truthy (pendingHeartbeatRef t) \<longrightarrow>
              HeartbeatCallback HB_sent \<in> set (effects_since t (sendHeartbeat K t))
            \<and> HeartbeatCallback HB_timeout \<notin> set (effects_since t (sendHeartbeat K t)))
       \<and> (let t = (sendHeartbeat K s)\<lparr>socket := Open\<rparr>
          in HeartbeatCallback HB_sent \<in> set (effects_since t (sendHeartbeat K t))
           \<and> HeartbeatCallback HB_timeout \<notin> set (effects_since t (sendHeartbeat K t)))
       \<and> (\<forall>t. isConnected t \<and> \<not> truthy (pendingHeartbeatRef t) \<longrightarrow>
              truthy (pendingHeartbeatRef (sendHeartbeat K t)))"
proof -
  have stored: "truthy (pendingHeartbeatRef (sendHeartbeat K t))"
    if "isConnected t" and "\<not> truthy (pendingHeartbeatRef t)" for t
    unfolding pendingHeartbeatRef_sent [OF that] by (simp add: makeRef_nonempty)
  note eq = timeout_branch_eq [OF assms, of K]
  have sent: "HeartbeatCallback HB_sent \<in> set (effects_since t (sendHeartbeat K t))
            \<and> HeartbeatCallback HB_timeout \<notin> set (effects_since t (sendHeartbeat K t))"
    if "isConnected t" and "\<not> truthy (pendingHeartbeatRef t)" for t
    unfolding effects_since_def trace_sendHeartbeat_sent [OF that]
    by (simp add: report_effects_def split: option.splits)
  have p: "pendingHeartbeatRef (sendHeartbeat K s) = None"
    and w: "wasManualDisconnect (sendHeartbeat K s) = False"
    by (simp_all add: eq)
  have "isConnected ((sendHeartbeat K s)\<lparr>socket := Open\<rparr>)" by (simp add: isConnected_def)
  moreover have "\<not> truthy (pendingHeartbeatRef ((sendHeartbeat K s)\<lparr>socket := Open\<rparr>))"
    using p by simp
  ultimately have again:
    "HeartbeatCallback HB_sent
       \<in> set (effects_since ((sendHeartbeat K s)\<lparr>socket := Open\<rparr>)
                (sendHeartbeat K ((sendHeartbeat K s)\<lparr>socket := Open\<rparr>)))
     \<and> HeartbeatCallback HB_timeout
       \<notin> set (effects_since ((sendHeartbeat K s)\<lparr>socket := Open\<rparr>)
                (sendHeartbeat K ((sendHeartbeat K s)\<lparr>socket := Open\<rparr>)))"
    by (rule sent)
  have task: "run_task HeartbeatTimeoutFallback t =
                (if \<not> isConnected t \<and> reconnectTimer t then emit [ScheduleTimeout] t else t)" for t
    by (simp add: heartbeat_timeout_fallback_def)
  have h: "hd (report_effects s HB_timeout) = HeartbeatCallback HB_timeout"
    by (simp add: report_effects_def)
  show ?thesis
    using eq p w h task sent again stored unfolding Let_def by blast
qed

theorem sendHeartbeat_timeout_witness:
  "isConnected client_pending \<and> truthy (pendingHeartbeatRef client_pending)
   \<and> sendHeartbeat K0 client_pending =
       client_pending\<lparr>pendingHeartbeatRef := None, wasManualDisconnect := False,
         trace := [SocketLog ''transport''
                     ''heartbeat timeout. Attempting to re-establish connection'' None,
                   HeartbeatCallback HB_timeout,
                   SocketDisconnect (Some 1000) (Some ''heartbeat timeout''),
                   SetTimeout HeartbeatTimeoutFallback 100]\<rparr>
   \<and> run_task HeartbeatTimeoutFallback ((sendHeartbeat K0 client_pending)\<lparr>socket := Closed\<rparr>)
       = emit [ScheduleTimeout] ((sendHeartbeat K0 client_pending)\<lparr>socket := Closed\<rparr>)
   \<and> HeartbeatCallback HB_sent
       \<in> set (effects_since ((sendHeartbeat K0 client_pending)\<lparr>socket := Open\<rparr>)
                (sendHeartbeat K0 ((sendHeartbeat K0 client_pending)\<lparr>socket := Open\<rparr>)))"
proof -
  have a: "isConnected client_pending"
    by (simp add: client_pending_def isConnected_def)
  have b: "truthy (pendingHeartbeatRef client_pending)"
    by (simp add: client_pending_def)
  have r: "report_effects client_pending HB_timeout = [HeartbeatCallback HB_timeout]"
    by (simp add: report_effects_def client_pending_def client0_def noop_def)
  have t: "trace client_pending = []" by (simp add: client_pending_def client0_def)
  have k: "WS_CLOSE_NORMAL K0 = 1000" by (simp add: K0_def)
  note th = sendHeartbeat_timeout [OF a b, of K0]
  have e1: "sendHeartbeat K0 client_pending =
       client_pending\<lparr>pendingHeartbeatRef := None, wasManualDisconnect := False,
         trace := [SocketLog ''transport''
                     ''heartbeat timeout. Attempting to re-establish connection'' None,
                   HeartbeatCallback HB_timeout,
                   SocketDisconnect (Some 1000) (Some ''heartbeat timeout''),
                   SetTimeout HeartbeatTimeoutFallback 100]\<rparr>"
    using th [THEN conjunct1] unfolding r t k by simp
  have c: "\<not> isConnected ((sendHeartbeat K0 client_pending)\<lparr>socket := Closed\<rparr>)"
    by (simp add: isConnected_def)
  have d: "reconnectTimer ((sendHeartbeat K0 client_pending)\<lparr>socket := Closed\<rparr>)"
    unfolding e1 by (simp add: client_pending_def client0_def)
  from th have "run_task HeartbeatTimeoutFallback ((sendHeartbeat K0 client_pending)\<lparr>socket := Closed\<rparr>)
      = (if \<not> isConnected ((sendHeartbeat K0 client_pending)\<lparr>socket := Closed\<rparr>)
            \<and> reconnectTimer ((sendHeartbeat K0 client_pending)\<lparr>socket := Closed\<rparr>)
         then emit [ScheduleTimeout] ((sendHeartbeat K0 client_pending)\<lparr>socket := Closed\<rparr>)
         else (sendHeartbeat K0 client_pending)\<lparr>socket := Closed\<rparr>)"
    by blast
  with c d have e2: "run_task HeartbeatTimeoutFallback ((sendHeartbeat K0 client_pending)\<lparr>socket := Closed\<rparr>)
       = emit [ScheduleTimeout] ((sendHeartbeat K0 client_pending)\<lparr>socket := Closed\<rparr>)"
    by presburger
  from th have e3: "HeartbeatCallback HB_sent
       \<in> set (effects_since ((sendHeartbeat K0 client_pending)\<lparr>socket := Open\<rparr>)
                (sendHeartbeat K0 ((sendHeartbeat K0 client_pending)\<lparr>socket := Open\<rparr>)))"
    unfolding Let_def by blast
  from a b e1 e2 e3 show ?thesis by blast
qed

section \<open>Properties of the connection manager\<close>

lemma disconnect_eq:
  "disconnect s code reason =
     (if isDisconnecting s then s else s\<lparr>trace := trace s @ [SocketDisconnect code reason]\<rparr>)"
  by (simp add: disconnect_def PhoenixSocket_disconnect_def emit_def)

text \<open>
  Claim C2, as the code has it. A call of \<^verbatim>\<open>disconnect(code, reason)\<close> on a client that is
  not disconnecting tells the transport to close with that code and reason and changes
  nothing in the client itself; on a client that is disconnecting it does nothing. In both
  cases the manual-disconnect flag keeps the value it had.
\<close>

theorem disconnect_closes_transport:
  "(\<not> isDisconnecting s \<longrightarrow>
      disconnect s code reason = s\<lparr>trace := trace s @ [SocketDisconnect code reason]\<rparr>)
   \<and> (isDisconnecting s \<longrightarrow> disconnect s code reason = s)
   \<and> wasManualDisconnect (disconnect s code reason) = wasManualDisconnect s"
  by (simp add: disconnect_eq)

theorem disconnect_closes_transport_witness:
  "\<not> isDisconnecting client0
   \<and> disconnect client0 (Some 1000) (Some ''bye'')
       = client0\<lparr>trace := [SocketDisconnect (Some 1000) (Some ''bye'')]\<rparr>
   \<and> isDisconnecting (client0\<lparr>socket := Closing\<rparr>)
   \<and> disconnect (client0\<lparr>socket := Closing\<rparr>) (Some 1000) (Some ''bye'')
       = client0\<lparr>socket := Closing\<rparr>"
proof -
  have a: "\<not> isDisconnecting client0" by (simp add: isDisconnecting_def client0_def)
  have b: "isDisconnecting (client0\<lparr>socket := Closing\<rparr>)" by (simp add: isDisconnecting_def)
  have t: "trace client0 = []" by (simp add: client0_def)
  from disconnect_closes_transport [of client0 "Some 1000" "Some ''bye''"] a t
  have c: "disconnect client0 (Some 1000) (Some ''bye'')
       = client0\<lparr>trace := [SocketDisconnect (Some 1000) (Some ''bye'')]\<rparr>" by simp
  from disconnect_closes_transport [of "client0\<lparr>socket := Closing\<rparr>" "Some 1000" "Some ''bye''"] b
  have d: "disconnect (client0\<lparr>socket := Closing\<rparr>) (Some 1000) (Some ''bye'')
       = client0\<lparr>socket := Closing\<rparr>" by blast
  from a b c d show ?thesis by blast
qed

text \<open>
  Claim C2 as stated fails: after \<^verbatim>\<open>disconnect()\<close> on a client that is not disconnecting
  the manual-disconnect flag is still false. And the reconnection timer can be set off
  after such a call without any call of \<^verbatim>\<open>connect\<close>: a heartbeat times out, the
  application disconnects, the transport reports \<^verbatim>\<open>closed\<close>, and the function left with
  \<^verbatim>\<open>setTimeout\<close> by the heartbeat runs.
\<close>

theorem disconnect_manual_flag_counterexample:
  "\<not> isDisconnecting client0
   \<and> wasManualDisconnect (disconnect client0 None None) = False
   \<and> trace (disconnect client0 None None) = [SocketDisconnect None None]
   \<and> effects_since (disconnect (sendHeartbeat K0 client_pending) None None)
        (run_task HeartbeatTimeoutFallback
           ((disconnect (sendHeartbeat K0 client_pending) None None)\<lparr>socket := Closed\<rparr>))
      = [ScheduleTimeout]"
proof -
  have a: "\<not> isDisconnecting client0" by (simp add: isDisconnecting_def client0_def)
  have b: "wasManualDisconnect (disconnect client0 None None) = False"
    by (simp add: disconnect_eq client0_def)
  have c: "trace (disconnect client0 None None) = [SocketDisconnect None None]"
    by (simp add: disconnect_eq client0_def isDisconnecting_def)
  have r: "reconnectTimer (disconnect (sendHeartbeat K0 client_pending) None None)"
    by (simp add: disconnect_eq sendHeartbeat_def client_pending_def client0_def
        isConnected_def Let_def report_def log_def PhoenixSocket_log_def
        PhoenixSocket_disconnect_def emit_def noop_def)
  have d: "effects_since (disconnect (sendHeartbeat K0 client_pending) None None)
        (run_task HeartbeatTimeoutFallback
           ((disconnect (sendHeartbeat K0 client_pending) None None)\<lparr>socket := Closed\<rparr>))
      = [ScheduleTimeout]"
    using r by (simp add: heartbeat_timeout_fallback_def isConnected_def emit_def
        effects_since_def)
  from a b c d show ?thesis by blast
qed

section \<open>Properties of the channel registry\<close>

lemma unsubscribe_eq:
  "unsubscribe s ch ack =
     (ack, s\<lparr>channels := filter (\<lambda>c. topic c \<noteq> topic ch) (channels s),
             trace := trace s @ [ChannelLeave (oid ch)]\<rparr>)"
  by (simp add: unsubscribe_def client_remove_def PhoenixChannel_unsubscribe_def emit_def)

lemma removeChannel_eq:
  "removeChannel s ch ack =
     (ack, let s1 = s\<lparr>channels := filter (\<lambda>c. topic c \<noteq> topic ch) (channels s),
                      trace := trace s @ [ChannelLeave (oid ch)]\<rparr>
           in if channels s1 = [] then disconnect s1 None None else s1)"
  by (simp add: removeChannel_def unsubscribe_eq Let_def)

lemma removeChannel_trace:
  "trace (snd (removeChannel s ch ack)) =
     trace s @ ChannelLeave (oid ch) #
       (if filter (\<lambda>c. topic c \<noteq> topic ch) (channels s) = [] \<and> \<not> isDisconnecting s
        then [SocketDisconnect None None] else [])"
  by (simp add: removeChannel_eq disconnect_eq Let_def isDisconnecting_def)

lemma removeChannel_channels:
  "channels (snd (removeChannel s ch ack)) = filter (\<lambda>c. topic c \<noteq> topic ch) (channels s)"
  by (simp add: removeChannel_eq disconnect_eq Let_def)

text \<open>
  Claim C3. For a registered session \<open>ch\<close>, \<^verbatim>\<open>removeChannel(ch)\<close> sends the leave for
  \<open>ch\<close>, returns the status the leave was acknowledged with, whichever it is, and leaves
  the registry without \<open>ch\<close> (without any session of its topic); it then calls
  \<^verbatim>\<open>disconnect()\<close> if the registry is empty and only then. So the transport is told to
  close exactly when the registry has become empty and the client was not disconnecting
  already; removing the only session empties the registry, and while a session of another
  topic remains the transport is not told to close.
\<close>

theorem removeChannel_registry:
  assumes "ch \<in> set (channels s)"
  shows "fst (removeChannel s ch ack) = ack
       \<and> channels (snd (removeChannel s ch ack))
           = filter (\<lambda>c. topic c \<noteq> topic ch) (channels s)
       \<and> ch \<notin> set (channels (snd (removeChannel s ch ack)))
       \<and> snd (removeChannel s ch ack)
           = (let s1 = s\<lparr>channels := filter (\<lambda>c. topic c \<noteq> topic ch) (channels s),
                         trace := trace s @ [ChannelLeave (oid ch)]\<rparr>
              in if channels (snd (removeChannel s ch ack)) = []
                 then disconnect s1 None None else s1)
       \<and> effects_since s (snd (removeChannel s ch ack))
           = ChannelLeave (oid ch) #
             (if channels (snd (removeChannel s ch ack)) = [] \<and> \<not> isDisconnecting s
              then [SocketDisconnect None None] else [])
       \<and> (channels s = [ch] \<longrightarrow> channels (snd (removeChannel s ch ack)) = [])
       \<and> ((\<exists>c \<in> set (channels s). topic c \<noteq> topic ch) \<longrightarrow>
            channels (snd (removeChannel s ch ack)) \<noteq> []
          \<and> SocketDisconnect None None \<notin> set (effects_since s (snd (removeChannel s ch ack))))"
proof -
  let ?s' = "snd (removeChannel s ch ack)"
  note ch = removeChannel_channels [of s ch ack]
  have 1: "fst (removeChannel s ch ack) = ack" by (simp add: removeChannel_eq)
  have 3: "ch \<notin> set (channels ?s')" by (simp add: ch)
  have 4: "?s' = (let s1 = s\<lparr>channels := filter (\<lambda>c. topic c \<noteq> topic ch) (channels s),
                         trace := trace s @ [ChannelLeave (oid ch)]\<rparr>
              in if channels ?s' = [] then disconnect s1 None None else s1)"
    unfolding ch by (simp add: removeChannel_eq Let_def)
  have 5: "effects_since s ?s' = ChannelLeave (oid ch) #
             (if channels ?s' = [] \<and> \<not> isDisconnecting s
              then [SocketDisconnect None None] else [])"
    unfolding ch by (rule effects_since_trace) (simp add: removeChannel_trace)
  have 6: "channels s = [ch] \<longrightarrow> channels ?s' = []" by (simp add: ch)
  have 7: "channels ?s' \<noteq> [] \<and> SocketDisconnect None None \<notin> set (effects_since s ?s')"
    if "\<exists>c \<in> set (channels s). topic c \<noteq> topic ch"
  proof -
    from that have "channels ?s' \<noteq> []" unfolding ch by (simp add: filter_empty_conv)
    then show ?thesis unfolding 5 by simp
  qed
  from 1 ch 3 4 5 6 7 show ?thesis by blast
qed

theorem removeChannel_registry_witness:
  "lobby \<in> set (channels client_lobby)
   \<and> removeChannel client_lobby lobby R_timed_out
       = (R_timed_out,
          client_lobby\<lparr>channels := [],
                       trace := [ChannelLeave 0, SocketDisconnect None None]\<rparr>)
   \<and> lobby \<in> set (channels client_two)
   \<and> removeChannel client_two lobby R_ok
       = (R_ok, client_two\<lparr>channels := [room], trace := [ChannelLeave 0]\<rparr>)"
proof -
  have a: "lobby \<in> set (channels client_lobby)" by (simp add: client_lobby_def)
  have b: "lobby \<in> set (channels client_two)" by (simp add: client_two_def)
  note th1 = removeChannel_registry [OF a, of R_timed_out]
  have f1: "filter (\<lambda>c. topic c \<noteq> topic lobby) (channels client_lobby) = []"
    by (simp add: client_lobby_def)
  have c1: "fst (removeChannel client_lobby lobby R_timed_out) = R_timed_out"
    using th1 by blast
  have c2: "channels (snd (removeChannel client_lobby lobby R_timed_out)) = []"
    using th1 [THEN conjunct2, THEN conjunct1] unfolding f1 .
  have c3: "snd (removeChannel client_lobby lobby R_timed_out)
      = disconnect (client_lobby\<lparr>channels := [],
                      trace := trace client_lobby @ [ChannelLeave (oid lobby)]\<rparr>) None None"
    using th1 [THEN conjunct2, THEN conjunct2, THEN conjunct2, THEN conjunct1]
    unfolding c2 f1 Let_def by simp
  have c4: "disconnect (client_lobby\<lparr>channels := [],
                      trace := trace client_lobby @ [ChannelLeave (oid lobby)]\<rparr>) None None
      = client_lobby\<lparr>channels := [],
                       trace := [ChannelLeave 0, SocketDisconnect None None]\<rparr>"
    by (simp add: disconnect_eq isDisconnecting_def client_lobby_def client0_def lobby_def)
  have c: "removeChannel client_lobby lobby R_timed_out
       = (R_timed_out,
          client_lobby\<lparr>channels := [],
                       trace := [ChannelLeave 0, SocketDisconnect None None]\<rparr>)"
    using c1 c3 c4 by (simp add: prod_eq_iff)
  note th2 = removeChannel_registry [OF b, of R_ok]
  have f2: "filter (\<lambda>c. topic c \<noteq> topic lobby) (channels client_two) = [room]"
    by (simp add: client_two_def room_def lobby_def)
  have d1: "fst (removeChannel client_two lobby R_ok) = R_ok"
    using th2 by blast
  have d2: "channels (snd (removeChannel client_two lobby R_ok)) = [room]"
    using th2 [THEN conjunct2, THEN conjunct1] unfolding f2 .
  have d3: "snd (removeChannel client_two lobby R_ok)
      = client_two\<lparr>channels := [room],
                    trace := trace client_two @ [ChannelLeave (oid lobby)]\<rparr>"
    using th2 [THEN conjunct2, THEN conjunct2, THEN conjunct2, THEN conjunct1]
    unfolding d2 f2 Let_def by simp
  have d4: "trace client_two @ [ChannelLeave (oid lobby)] = [ChannelLeave 0]"
    by (simp add: client_two_def client_lobby_def client0_def lobby_def)
  have d: "removeChannel client_two lobby R_ok
       = (R_ok, client_two\<lparr>channels := [room], trace := [ChannelLeave 0]\<rparr>)"
    using d1 d3 d4 by (simp add: prod_eq_iff)
  from a b c d show ?thesis by blast
qed

lemma unsubscribe_all_eq:
  "unsubscribe_all s cs ack =
     (map ack cs,
      s\<lparr>channels := filter (\<lambda>c. topic c \<notin> topic ` set cs) (channels s),
        trace := trace s @ map (\<lambda>c. ChannelLeave (oid c)) cs\<rparr>)"
proof (induction cs arbitrary: s)
  case Nil
  show ?case by simp
next
  case (Cons c cs)
  have "filter (\<lambda>x. topic x \<notin> topic ` set cs) (filter (\<lambda>x. topic x \<noteq> topic c) (channels s))
      = filter (\<lambda>x. topic x \<notin> topic ` set (c # cs)) (channels s)"
    by (induction "channels s") auto
  then show ?case by (simp add: unsubscribe_eq Cons.IH)
qed

lemma removeAllChannels_eq:
  "removeAllChannels s ack =
     (map ack (channels s),
      disconnect (s\<lparr>trace := trace s @ map (\<lambda>c. ChannelLeave (oid c)) (channels s),
                   channels := []\<rparr>) None None)"
  by (simp add: removeAllChannels_def unsubscribe_all_eq)

text \<open>The scenario of the specification: a client made with an API key only, one channel
  \<^verbatim>\<open>lobby\<close> with \<^verbatim>\<open>{config: {}}\<close>, and \<^verbatim>\<open>removeAllChannels()\<close> before any connect.\<close>

lemma channel_lobby:
  "channel (snd (alloc_options client0 \<lparr>config = Some []\<rparr>)) ''lobby'' (Some 0)
     = Inr (lobby, client_lobby)"
  by (simp add: channel_def alloc_options_def getChannels_def client0_def
      new_RealtimeChannel_def new_PhoenixChannel_def
      translateRealtimeOptionsToChannelParams_def config_entries_def spread_def lobby_def
      client_lobby_def default_config_def)

text \<open>
  Claim C9. Whatever the registry holds, \<^verbatim>\<open>removeAllChannels()\<close> sends the leave for every
  registered session, in registration order, returns the statuses the leaves were
  acknowledged with in that same order, empties the registry, and then calls
  \<^verbatim>\<open>disconnect()\<close> whether or not there was a session: the transport is told to close
  unless the client was disconnecting already. The function has no failing branch.
\<close>

theorem removeAllChannels_registry:
  "fst (removeAllChannels s ack) = map ack (channels s)
   \<and> length (fst (removeAllChannels s ack)) = length (channels s)
   \<and> channels (snd (removeAllChannels s ack)) = []
   \<and> snd (removeAllChannels s ack)
       = disconnect (s\<lparr>trace := trace s @ map (\<lambda>c. ChannelLeave (oid c)) (channels s),
                       channels := []\<rparr>)
           None None
   \<and> effects_since s (snd (removeAllChannels s ack))
       = map (\<lambda>c. ChannelLeave (oid c)) (channels s)
         @ (if isDisconnecting s then [] else [SocketDisconnect None None])"
proof -
  have "effects_since s (snd (removeAllChannels s ack))
       = map (\<lambda>c. ChannelLeave (oid c)) (channels s)
         @ (if isDisconnecting s then [] else [SocketDisconnect None None])"
    by (rule effects_since_trace)
       (simp add: removeAllChannels_eq disconnect_eq isDisconnecting_def)
  then show ?thesis by (simp add: removeAllChannels_eq disconnect_eq)
qed

theorem removeAllChannels_registry_witness:
  "new_RealtimeClient (Some \<lparr>opt_apikey = Some ''k'', opt_accessToken = False,
      opt_heartbeatCallback = None\<rparr>) = Inr client0
   \<and> channel (snd (alloc_options client0 \<lparr>config = Some []\<rparr>)) ''lobby'' (Some 0)
     = Inr (lobby, client_lobby)
   \<and> removeAllChannels client_lobby (\<lambda>c. R_ok)
     = ([R_ok], client_lobby\<lparr>channels := [],
                             trace := [ChannelLeave 0, SocketDisconnect None None]\<rparr>)
   \<and> removeAllChannels client_two (\<lambda>c. if c = lobby then R_error else R_ok)
     = ([R_error, R_ok],
        client_two\<lparr>channels := [],
                    trace := [ChannelLeave 0, ChannelLeave 1, SocketDisconnect None None]\<rparr>)"
proof -
  note th1 = removeAllChannels_registry [of client_lobby "\<lambda>c. R_ok"]
  have a1: "fst (removeAllChannels client_lobby (\<lambda>c. R_ok)) = [R_ok]"
    using th1 [THEN conjunct1] by (simp add: client_lobby_def)
  have a2: "snd (removeAllChannels client_lobby (\<lambda>c. R_ok))
       = disconnect (client_lobby\<lparr>trace := trace client_lobby
              @ map (\<lambda>c. ChannelLeave (oid c)) (channels client_lobby),
            channels := []\<rparr>) None None"
    using th1 by blast
  have a3: "disconnect (client_lobby\<lparr>trace := trace client_lobby
              @ map (\<lambda>c. ChannelLeave (oid c)) (channels client_lobby),
            channels := []\<rparr>) None None
       = client_lobby\<lparr>channels := [], trace := [ChannelLeave 0, SocketDisconnect None None]\<rparr>"
    by (simp add: disconnect_eq isDisconnecting_def client_lobby_def client0_def lobby_def)
  have a: "removeAllChannels client_lobby (\<lambda>c. R_ok)
     = ([R_ok], client_lobby\<lparr>channels := [],
                             trace := [ChannelLeave 0, SocketDisconnect None None]\<rparr>)"
    using a1 a2 a3 by (simp add: prod_eq_iff)
  note th2 = removeAllChannels_registry [of client_two "\<lambda>c. if c = lobby then R_error else R_ok"]
  have b1: "fst (removeAllChannels client_two (\<lambda>c. if c = lobby then R_error else R_ok))
       = [R_error, R_ok]"
    using th2 [THEN conjunct1] by (simp add: client_two_def room_def lobby_def)
  have b2: "snd (removeAllChannels client_two (\<lambda>c. if c = lobby then R_error else R_ok))
       = disconnect (client_two\<lparr>trace := trace client_two
              @ map (\<lambda>c. ChannelLeave (oid c)) (channels client_two),
            channels := []\<rparr>) None None"
    using th2 by blast
  have b3: "disconnect (client_two\<lparr>trace := trace client_two
              @ map (\<lambda>c. ChannelLeave (oid c)) (channels client_two),
            channels := []\<rparr>) None None
       = client_two\<lparr>channels := [],
            trace := [ChannelLeave 0, ChannelLeave 1, SocketDisconnect None None]\<rparr>"
    by (simp add: disconnect_eq isDisconnecting_def client_two_def client_lobby_def
        client0_def lobby_def room_def)
  have b: "removeAllChannels client_two (\<lambda>c. if c = lobby then R_error else R_ok)
     = ([R_error, R_ok],
        client_two\<lparr>channels := [],
                    trace := [ChannelLeave 0, ChannelLeave 1, SocketDisconnect None None]\<rparr>)"
    using b1 b2 b3 by (simp add: prod_eq_iff)
  from a b client0_constructed channel_lobby show ?thesis by blast
qed

lemma find_snoc:
  "find P (xs @ [x]) = (case find P xs of None \<Rightarrow> (if P x then Some x else None) | Some y \<Rightarrow> Some y)"
  by (induction xs) auto

lemma channels_alloc_options [simp]: "channels (snd (alloc_options s opts)) = channels s"
  by (simp add: alloc_options_def)

lemma new_RealtimeChannel_Inr:
  assumes "new_RealtimeChannel s tpc p = Inr (chan, s')"
  shows "topic chan = tpc \<and> oid chan = next_oid s \<and> channels s' = channels s"
  using assms
  by (auto simp: new_RealtimeChannel_def new_PhoenixChannel_def split: sum.splits)

text \<open>A call of \<^verbatim>\<open>channel\<close> that finds a session of the namespaced topic returns it; the
  client is as before, but for the options object made on entry when none was passed.\<close>

lemma channel_found:
  assumes "find (\<lambda>c. topic c = ''realtime:'' @ t) (channels s) = Some c"
  shows "channel s t opts =
           Inr (c, case opts of Some a \<Rightarrow> s
                   | None \<Rightarrow> snd (alloc_options s \<lparr>config = Some []\<rparr>))"
proof (cases opts)
  case None
  obtain a s0 where al: "alloc_options s \<lparr>config = Some []\<rparr> = (a, s0)"
    by (cases "alloc_options s \<lparr>config = Some []\<rparr>")
  then have "s0 = snd (alloc_options s \<lparr>config = Some []\<rparr>)" by simp
  then have "channels s0 = channels s" by (simp only: channels_alloc_options)
  with assms None al show ?thesis by (simp add: channel_def getChannels_def)
next
  case (Some a)
  with assms show ?thesis by (simp add: channel_def getChannels_def)
qed

lemma channel_first:
  assumes "channel s t opts = Inr (c, s')"
  shows "find (\<lambda>c. topic c = ''realtime:'' @ t) (channels s') = Some c
       \<and> topic c = ''realtime:'' @ t
       \<and> (distinct (map topic (channels s)) \<longrightarrow> distinct (map topic (channels s')))"
proof -
  obtain p s0 where e: "(case opts of Some a \<Rightarrow> (a, s)
                          | None \<Rightarrow> alloc_options s \<lparr>config = Some []\<rparr>) = (p, s0)"
    by (cases "case opts of Some a \<Rightarrow> (a, s) | None \<Rightarrow> alloc_options s \<lparr>config = Some []\<rparr>")
  have ch0: "channels s0 = channels s"
  proof (cases opts)
    case None
    with e have "s0 = snd (alloc_options s \<lparr>config = Some []\<rparr>)" by simp
    then show ?thesis by simp
  next
    case (Some a)
    with e show ?thesis by simp
  qed
  show ?thesis
  proof (cases "find (\<lambda>c. topic c = ''realtime:'' @ t) (channels s0)")
    case (Some ex)
    with assms e have "c = ex" and "s' = s0"
      by (simp_all add: channel_def getChannels_def)
    with Some ch0 show ?thesis by (auto simp: find_Some_iff)
  next
    case None
    have unf: "channel s t opts =
        (case new_RealtimeChannel s0 (''realtime:'' @ t) p of
           Inl e \<Rightarrow> Inl e
         | Inr (chan, s1) \<Rightarrow> Inr (chan, s1\<lparr>channels := channels s1 @ [chan]\<rparr>))"
      using e None by (simp add: channel_def getChannels_def)
    obtain s1 where
      n: "new_RealtimeChannel s0 (''realtime:'' @ t) p = Inr (c, s1)"
      and s': "s' = s1\<lparr>channels := channels s1 @ [c]\<rparr>"
    proof (cases "new_RealtimeChannel s0 (''realtime:'' @ t) p")
      case (Inl err)
      with assms unf show ?thesis by simp
    next
      case (Inr x)
      obtain chan s1 where x: "x = (chan, s1)" by (cases x)
      with Inr assms unf have "chan = c \<and> s' = s1\<lparr>channels := channels s1 @ [chan]\<rparr>"
        by auto
      with Inr x that show ?thesis by blast
    qed
    from new_RealtimeChannel_Inr [OF n]
    have tc: "topic c = ''realtime:'' @ t" and ch1: "channels s1 = channels s0" by simp_all
    have chs: "channels s' = channels s @ [c]" using s' ch1 ch0 by simp
    from None have nin: "''realtime:'' @ t \<notin> topic ` set (channels s)"
      unfolding ch0 by (auto simp: find_None_iff)
    have "find (\<lambda>c. topic c = ''realtime:'' @ t) (channels s') = Some c"
      using None tc unfolding chs ch0 by (simp add: find_snoc)
    moreover have "distinct (map topic (channels s')) " if "distinct (map topic (channels s))"
      using that nin tc unfolding chs by simp
    ultimately show ?thesis using tc by blast
  qed
qed

section \<open>Properties of the auth synchronizer\<close>

lemma auth_channel_eq: "auth_channel K tok s c = emit (auth_effects K tok c) s"
  by (simp add: auth_channel_def auth_effects_def PhoenixChannel_push_def updateJoinPayload_def
      PhoenixChannel_updateJoinPayload_def log_def PhoenixSocket_log_def emit_def Let_def)

lemma foldl_auth_channel:
  "foldl (auth_channel K tok) s cs = emit (concat (map (auth_effects K tok) cs)) s"
proof (induction cs arbitrary: s)
  case Nil
  show ?case by (simp add: emit_Nil)
next
  case (Cons c cs)
  have "foldl (auth_channel K tok) s (c # cs)
      = foldl (auth_channel K tok) (auth_channel K tok s c) cs" by simp
  also have "\<dots> = emit (concat (map (auth_effects K tok) cs)) (auth_channel K tok s c)"
    by (rule Cons.IH)
  also have "\<dots> = emit (concat (map (auth_effects K tok) (c # cs))) s"
    by (simp add: auth_channel_eq emit_emit)
  finally show ?case .
qed

lemma performAuth_resume_eq:
  "performAuth_resume K s tok =
     (if accessTokenValue s \<noteq> tok
      then emit (SocketLog ''auth'' ''performing auth'' (Some (JObj [(''token'', js_token tok)]))
                 # concat (map (auth_effects K tok) (channels s)))
             (s\<lparr>accessTokenValue := tok\<rparr>)
      else emit [SocketLog ''auth'' ''performing auth'' (Some (JObj [(''token'', js_token tok)]))] s)"
  by (simp add: performAuth_resume_def foldl_auth_channel log_def PhoenixSocket_log_def Let_def
      emit_def)


text \<open>
  Claim C6, as the code has it. An auth pass with a resolved token different from the stored
  one stores the token and then goes through the registry in registration order. For each
  session it updates the join payload with \<^verbatim>\<open>{access_token, version}\<close> if the resolved
  token is truthy (neither \<^verbatim>\<open>null\<close> nor empty) and not otherwise, and in both cases pushes
  the auth-update message with the token on the channel; a push that throws is caught and
  logged, and the pass goes on with the next session. A pass whose resolved token is the
  stored one only logs and touches no session.
\<close>

theorem performAuth_propagates:
  "(accessTokenValue s \<noteq> tok \<longrightarrow>
      accessTokenValue (performAuth_resume K s tok) = tok
      \<and> effects_since s (performAuth_resume K s tok)
          = SocketLog ''auth'' ''performing auth'' (Some (JObj [(''token'', js_token tok)]))
            # concat (map (auth_effects K tok) (channels s))
      \<and> performAuth_resume K s tok
          = emit (effects_since s (performAuth_resume K s tok)) (s\<lparr>accessTokenValue := tok\<rparr>))
   \<and> (accessTokenValue s = tok \<longrightarrow>
        performAuth_resume K s tok
          = emit [SocketLog ''auth'' ''performing auth''
                    (Some (JObj [(''token'', js_token tok)]))] s)
   \<and> (\<forall>c. auth_effects K tok c
        = (if truthy tok
           then [UpdateJoinPayload (oid c)
                   [(''access_token'', js_token tok), (''version'', JStr (DEFAULT_VERSION K))]]
           else [])
          @ (case PhoenixChannel_push s c (CHANNEL_EVENTS_access_token K)
                    [(''access_token'', js_token tok)] of
               Inr s' \<Rightarrow>
                 [ChannelPush (oid c) (CHANNEL_EVENTS_access_token K)
                    [(''access_token'', js_token tok)],
                  SocketLog ''auth'' ''pushed access token''
                    (Some (JObj [(''token'', js_token tok)]))]
             | Inl e \<Rightarrow> [SocketLog ''auth'' ''error pushing access token'' (Some (JStr e))]))"
proof -
  have e: "effects_since s (performAuth_resume K s tok)
          = SocketLog ''auth'' ''performing auth'' (Some (JObj [(''token'', js_token tok)]))
            # concat (map (auth_effects K tok) (channels s))"
    if "accessTokenValue s \<noteq> tok"
    using that by (simp add: performAuth_resume_eq effects_since_def emit_def)
  have a: "accessTokenValue (performAuth_resume K s tok) = tok"
    by (simp add: performAuth_resume_eq emit_def)
  have b: "performAuth_resume K s tok
          = emit (effects_since s (performAuth_resume K s tok)) (s\<lparr>accessTokenValue := tok\<rparr>)"
    if "accessTokenValue s \<noteq> tok"
    unfolding e [OF that] using that by (simp add: performAuth_resume_eq)
  have c: "accessTokenValue s = tok \<longrightarrow>
        performAuth_resume K s tok
          = emit [SocketLog ''auth'' ''performing auth''
                    (Some (JObj [(''token'', js_token tok)]))] s"
    by (simp add: performAuth_resume_eq)
  have d: "auth_effects K tok c
        = (if truthy tok
           then [UpdateJoinPayload (oid c)
                   [(''access_token'', js_token tok), (''version'', JStr (DEFAULT_VERSION K))]]
           else [])
          @ (case PhoenixChannel_push s c (CHANNEL_EVENTS_access_token K)
                    [(''access_token'', js_token tok)] of
               Inr s' \<Rightarrow>
                 [ChannelPush (oid c) (CHANNEL_EVENTS_access_token K)
                    [(''access_token'', js_token tok)],
                  SocketLog ''auth'' ''pushed access token''
                    (Some (JObj [(''token'', js_token tok)]))]
             | Inl e \<Rightarrow> [SocketLog ''auth'' ''error pushing access token'' (Some (JStr e))])"
    for c
    by (simp add: auth_effects_def PhoenixChannel_push_def)
  from a b c d e show ?thesis by blast
qed

lemma auth_effects_lobby_room:
  "auth_effects K0 tok lobby
     = (if truthy tok
        then [UpdateJoinPayload 0 [(''access_token'', js_token tok),
                                   (''version'', JStr ''realtime-js/0.0.0'')]]
        else [])
       @ [SocketLog ''auth'' ''error pushing access token''
            (Some (JStr (push_before_join ''access_token'' ''realtime:lobby'')))]"
  "auth_effects K0 tok room
     = (if truthy tok
        then [UpdateJoinPayload 1 [(''access_token'', js_token tok),
                                   (''version'', JStr ''realtime-js/0.0.0'')]]
        else [])
       @ [ChannelPush 1 ''access_token'' [(''access_token'', js_token tok)],
          SocketLog ''auth'' ''pushed access token'' (Some (JObj [(''token'', js_token tok)]))]"
  by (simp_all add: auth_effects_def K0_def lobby_def room_def)

theorem performAuth_propagates_witness:
  "accessTokenValue client_auth \<noteq> Some ''xyz''
   \<and> effects_since client_auth (performAuth_resume K0 client_auth (Some ''xyz''))
      = [SocketLog ''auth'' ''performing auth'' (Some (JObj [(''token'', JStr ''xyz'')])),
         UpdateJoinPayload 0 [(''access_token'', JStr ''xyz''),
                              (''version'', JStr ''realtime-js/0.0.0'')],
         SocketLog ''auth'' ''error pushing access token''
           (Some (JStr (push_before_join ''access_token'' ''realtime:lobby''))),
         UpdateJoinPayload 1 [(''access_token'', JStr ''xyz''),
                              (''version'', JStr ''realtime-js/0.0.0'')],
         ChannelPush 1 ''access_token'' [(''access_token'', JStr ''xyz'')],
         SocketLog ''auth'' ''pushed access token'' (Some (JObj [(''token'', JStr ''xyz'')]))]
   \<and> accessTokenValue client_auth = Some ''abc''
   \<and> effects_since client_auth (performAuth_resume K0 client_auth (Some ''abc''))
      = [SocketLog ''auth'' ''performing auth'' (Some (JObj [(''token'', JStr ''abc'')]))]"
proof -
  have a: "accessTokenValue client_auth \<noteq> Some ''xyz''"
    and b: "accessTokenValue client_auth = Some ''abc''"
    by (simp_all add: client_auth_def)
  have ch: "channels client_auth = [lobby, room]"
    by (simp add: client_auth_def client_two_def)
  note th1 = performAuth_propagates [of client_auth "Some ''xyz''" K0]
  from th1 a have "effects_since client_auth (performAuth_resume K0 client_auth (Some ''xyz''))
          = SocketLog ''auth'' ''performing auth'' (Some (JObj [(''token'', js_token (Some ''xyz''))]))
            # concat (map (auth_effects K0 (Some ''xyz'')) (channels client_auth))"
    by blast
  then have c: "effects_since client_auth (performAuth_resume K0 client_auth (Some ''xyz''))
      = [SocketLog ''auth'' ''performing auth'' (Some (JObj [(''token'', JStr ''xyz'')])),
         UpdateJoinPayload 0 [(''access_token'', JStr ''xyz''),
                              (''version'', JStr ''realtime-js/0.0.0'')],
         SocketLog ''auth'' ''error pushing access token''
           (Some (JStr (push_before_join ''access_token'' ''realtime:lobby''))),
         UpdateJoinPayload 1 [(''access_token'', JStr ''xyz''),
                              (''version'', JStr ''realtime-js/0.0.0'')],
         ChannelPush 1 ''access_token'' [(''access_token'', JStr ''xyz'')],
         SocketLog ''auth'' ''pushed access token'' (Some (JObj [(''token'', JStr ''xyz'')]))]"
    by (simp add: ch auth_effects_lobby_room)
  note th2 = performAuth_propagates [of client_auth "Some ''abc''" K0]
  from th2 b have "performAuth_resume K0 client_auth (Some ''abc'')
          = emit [SocketLog ''auth'' ''performing auth''
                    (Some (JObj [(''token'', js_token (Some ''abc''))]))] client_auth"
    by blast
  then have d: "effects_since client_auth (performAuth_resume K0 client_auth (Some ''abc''))
      = [SocketLog ''auth'' ''performing auth'' (Some (JObj [(''token'', JStr ''abc'')]))]"
    by (simp add: effects_since_def emit_def)
  from a b c d show ?thesis by blast
qed

text \<open>
  Claim C6 as stated fails for a falsy token: the provider resolves to \<^verbatim>\<open>null\<close> while
  \<^verbatim>\<open>"abc"\<close> is stored. The token differs, the stored token becomes \<^verbatim>\<open>null\<close> and the
  auth-update message is pushed on the joined channel, but no join payload is updated.
\<close>

theorem performAuth_null_token_counterexample:
  "accessTokenValue client_auth = Some ''abc''
   \<and> accessTokenValue
        (accessToken_settles K0 (snd (setAuth K0 client_auth None)) 0 (Inr None)) = None
   \<and> trace (accessToken_settles K0 (snd (setAuth K0 client_auth None)) 0 (Inr None))
      = [AccessTokenCall,
         SocketLog ''auth'' ''performing auth'' (Some (JObj [(''token'', JNull)])),
         SocketLog ''auth'' ''error pushing access token''
           (Some (JStr (push_before_join ''access_token'' ''realtime:lobby''))),
         ChannelPush 1 ''access_token'' [(''access_token'', JNull)],
         SocketLog ''auth'' ''pushed access token'' (Some (JObj [(''token'', JNull)]))]"
proof -
  have s1: "snd (setAuth K0 client_auth None)
      = client_auth\<lparr>next_promise := 1, trace := [AccessTokenCall],
                     awaiting_accessToken := [0], authPromise := Some 0,
                     awaiting_authPromise := [0]\<rparr>"
    by (simp add: setAuth_def performAuth_def emit_def Let_def client_auth_def client_two_def
        client_lobby_def client0_def)
  show ?thesis
    unfolding s1
    by (simp add: accessToken_settles_def settle_def performAuth_resume_eq emit_def
        auth_effects_lobby_room client_auth_def client_two_def client_lobby_def client0_def)
qed


lemma setAuth_provider:
  assumes "accessToken s" and "\<not> truthy tok"
  shows "fst (setAuth K s tok) = next_promise s"
    and "trace (snd (setAuth K s tok)) = trace s @ [AccessTokenCall]"
    and "authPromise (snd (setAuth K s tok)) = Some (next_promise s)"
    and "awaiting_accessToken (snd (setAuth K s tok)) = awaiting_accessToken s @ [next_promise s]"
    and "awaiting_authPromise (snd (setAuth K s tok)) = awaiting_authPromise s @ [next_promise s]"
    and "next_promise (snd (setAuth K s tok)) = next_promise s + 1"
    and "accessToken (snd (setAuth K s tok))"
    and "settled (snd (setAuth K s tok)) = settled s"
    and "channels (snd (setAuth K s tok)) = channels s"
    and "accessTokenValue (snd (setAuth K s tok)) = accessTokenValue s"
  using assms by (simp_all add: setAuth_def performAuth_def emit_def Let_def)

lemma setAuth_finally_settled:
  assumes "p \<in> set (awaiting_authPromise t)" and "map_of (settled t) p = Some outcome"
  shows "authPromise (setAuth_finally t p) = None"
    and "p \<notin> set (awaiting_authPromise (setAuth_finally t p))"
    and "awaiting_accessToken (setAuth_finally t p) = awaiting_accessToken t"
  using assms
  by (simp_all add: setAuth_finally_def log_def PhoenixSocket_log_def emit_def Let_def
      split: option.splits)

lemma setAuth_finally_pending:
  "map_of (settled t) p = None \<Longrightarrow> setAuth_finally t p = t"
  by (simp add: setAuth_finally_def)

lemma setAuth_handle:
  "fst (setAuth K t tok) = next_promise t"
  "next_promise (snd (setAuth K t tok)) = next_promise t + 1"
  "authPromise (snd (setAuth K t tok)) = Some (next_promise t)"
  "next_promise t \<in> set (awaiting_authPromise (snd (setAuth K t tok)))"
  by (simp_all add: setAuth_def performAuth_def settle_def performAuth_resume_eq emit_def
      Let_def)

lemma setAuth_explicit:
  assumes "truthy tok"
  shows "trace (snd (setAuth K t tok)) = trace (performAuth_resume K t tok)"
    and "accessTokenValue (snd (setAuth K t tok)) = tok"
    and "awaiting_accessToken (snd (setAuth K t tok)) = awaiting_accessToken t"
  using assms
  by (simp_all add: setAuth_def performAuth_def settle_def performAuth_resume_eq emit_def
      Let_def)

lemma setAuth_stored:
  assumes "\<not> truthy tok" and "\<not> accessToken t"
  shows "trace (snd (setAuth K t tok))
           = trace t @ [SocketLog ''auth'' ''performing auth''
                          (Some (JObj [(''token'', js_token (accessTokenValue t))]))]"
    and "accessTokenValue (snd (setAuth K t tok)) = accessTokenValue t"
    and "awaiting_accessToken (snd (setAuth K t tok)) = awaiting_accessToken t"
  using assms
  by (simp_all add: setAuth_def performAuth_def settle_def performAuth_resume_eq emit_def
      Let_def)

text \<open>
  Claim C1, as the code has it. Every call of \<^verbatim>\<open>setAuth\<close> starts an auth operation of its
  own, under a fresh handle, and stores that handle in \<^verbatim>\<open>_authPromise\<close>, over the handle
  that was there: with a truthy token the operation runs its auth pass with that token
  inside the call, without a token and with a token provider it calls the provider once and
  waits, and without either it runs its pass with the stored token. Of two overlapping
  calls that pass no token on a client with a token provider, each calls the provider once,
  so the provider is called twice and two operations wait for a token, and the handle
  stored is the second one; each operation runs its own auth pass with the token it is
  given when that token arrives. The cleanup of a call does nothing while the operation
  the call awaits is unsettled; once that operation has settled, with success or with
  failure, and the stored handle is still the one of this call, it sets \<^verbatim>\<open>_authPromise\<close>
  to \<^verbatim>\<open>null\<close>.
\<close>

theorem setAuth_starts_own_operation:
  assumes "accessToken s" and "\<not> truthy tok1" and "\<not> truthy tok2"
  shows "fst (setAuth K s tok1) \<noteq> fst (setAuth K (snd (setAuth K s tok1)) tok2)
       \<and> authPromise (snd (setAuth K s tok1)) = Some (fst (setAuth K s tok1))
       \<and> authPromise (snd (setAuth K (snd (setAuth K s tok1)) tok2))
           = Some (fst (setAuth K (snd (setAuth K s tok1)) tok2))
       \<and> trace (snd (setAuth K (snd (setAuth K s tok1)) tok2))
           = trace s @ [AccessTokenCall, AccessTokenCall]
       \<and> awaiting_accessToken (snd (setAuth K (snd (setAuth K s tok1)) tok2))
           = awaiting_accessToken s
             @ [fst (setAuth K s tok1), fst (setAuth K (snd (setAuth K s tok1)) tok2)]
       \<and> (\<forall>t p tok. p \<in> set (awaiting_accessToken t) \<longrightarrow>
             accessToken_settles K t p (Inr tok)
               = settle p None
                   (performAuth_resume K
                      (t\<lparr>awaiting_accessToken := removeAll p (awaiting_accessToken t)\<rparr>) tok))
       \<and> (\<forall>t p. map_of (settled t) p = None \<longrightarrow> setAuth_finally t p = t)
       \<and> (\<forall>t p outcome.
             p \<in> set (awaiting_authPromise t) \<and> map_of (settled t) p = Some outcome
             \<and> authPromise t = Some p \<longrightarrow>
             authPromise (setAuth_finally t p) = None
             \<and> awaiting_accessToken (setAuth_finally t p) = awaiting_accessToken t)
       \<and> (\<forall>t tok.
             fst (setAuth K t tok) = next_promise t
             \<and> next_promise (snd (setAuth K t tok)) = next_promise t + 1
             \<and> authPromise (snd (setAuth K t tok)) = Some (fst (setAuth K t tok))
             \<and> fst (setAuth K t tok) \<in> set (awaiting_authPromise (snd (setAuth K t tok))))
       \<and> (\<forall>t tok. truthy tok \<longrightarrow>
             trace (snd (setAuth K t tok)) = trace (performAuth_resume K t tok)
             \<and> accessTokenValue (snd (setAuth K t tok)) = tok
             \<and> awaiting_accessToken (snd (setAuth K t tok)) = awaiting_accessToken t)
       \<and> (\<forall>t tok. \<not> truthy tok \<and> accessToken t \<longrightarrow>
             trace (snd (setAuth K t tok)) = trace t @ [AccessTokenCall]
             \<and> accessTokenValue (snd (setAuth K t tok)) = accessTokenValue t
             \<and> awaiting_accessToken (snd (setAuth K t tok))
                 = awaiting_accessToken t @ [fst (setAuth K t tok)])
       \<and> (\<forall>t tok. \<not> truthy tok \<and> \<not> accessToken t \<longrightarrow>
             trace (snd (setAuth K t tok))
               = trace t @ [SocketLog ''auth'' ''performing auth''
                              (Some (JObj [(''token'', js_token (accessTokenValue t))]))]
             \<and> accessTokenValue (snd (setAuth K t tok)) = accessTokenValue t
             \<and> awaiting_accessToken (snd (setAuth K t tok)) = awaiting_accessToken t)"
proof -
  have resume: "accessToken_settles K t p (Inr tok)
               = settle p None
                   (performAuth_resume K
                      (t\<lparr>awaiting_accessToken := removeAll p (awaiting_accessToken t)\<rparr>) tok)"
    if "p \<in> set (awaiting_accessToken t)" for t p tok
    using that by (simp add: accessToken_settles_def)
  let ?s1 = "snd (setAuth K s tok1)"
  note one = setAuth_provider [OF assms(1,2), of K]
  have acc: "accessToken ?s1" by (rule one)
  note two = setAuth_provider [OF acc assms(3), of K]
  have 1: "fst (setAuth K s tok1) \<noteq> fst (setAuth K ?s1 tok2)"
    unfolding two(1) one(1) one(6) by simp
  have 4: "trace (snd (setAuth K ?s1 tok2)) = trace s @ [AccessTokenCall, AccessTokenCall]"
    unfolding two(2) one(2) by simp
  have 5: "awaiting_accessToken (snd (setAuth K ?s1 tok2))
           = awaiting_accessToken s @ [fst (setAuth K s tok1), fst (setAuth K ?s1 tok2)]"
    unfolding two(4) two(1) one(4) one(1) by simp
  have 2: "authPromise ?s1 = Some (fst (setAuth K s tok1))"
    unfolding one(3) one(1) ..
  have 3: "authPromise (snd (setAuth K ?s1 tok2)) = Some (fst (setAuth K ?s1 tok2))"
    unfolding two(3) two(1) ..
  have 8: "authPromise (setAuth_finally t p) = None
         \<and> awaiting_accessToken (setAuth_finally t p) = awaiting_accessToken t"
    if "p \<in> set (awaiting_authPromise t) \<and> map_of (settled t) p = Some outcome
        \<and> authPromise t = Some p" for t p outcome
    using that setAuth_finally_settled(1,3) by blast
  have 9: "fst (setAuth K t tok) = next_promise t
         \<and> next_promise (snd (setAuth K t tok)) = next_promise t + 1
         \<and> authPromise (snd (setAuth K t tok)) = Some (fst (setAuth K t tok))
         \<and> fst (setAuth K t tok) \<in> set (awaiting_authPromise (snd (setAuth K t tok)))"
    for t tok
    by (simp only: setAuth_handle simp_thms)
  have 10: "trace (snd (setAuth K t tok)) = trace (performAuth_resume K t tok)
          \<and> accessTokenValue (snd (setAuth K t tok)) = tok
          \<and> awaiting_accessToken (snd (setAuth K t tok)) = awaiting_accessToken t"
    if "truthy tok" for t tok
    using setAuth_explicit [OF that] by blast
  have 11: "trace (snd (setAuth K t tok)) = trace t @ [AccessTokenCall]
          \<and> accessTokenValue (snd (setAuth K t tok)) = accessTokenValue t
          \<and> awaiting_accessToken (snd (setAuth K t tok))
              = awaiting_accessToken t @ [fst (setAuth K t tok)]"
    if "\<not> truthy tok \<and> accessToken t" for t tok
  proof -
    from that have a: "accessToken t" and b: "\<not> truthy tok" by blast+
    note p = setAuth_provider [OF a b, of K]
    show ?thesis unfolding p(1) using p(2) p(10) p(4) by blast
  qed
  have 12: "trace (snd (setAuth K t tok))
               = trace t @ [SocketLog ''auth'' ''performing auth''
                              (Some (JObj [(''token'', js_token (accessTokenValue t))]))]
          \<and> accessTokenValue (snd (setAuth K t tok)) = accessTokenValue t
          \<and> awaiting_accessToken (snd (setAuth K t tok)) = awaiting_accessToken t"
    if "\<not> truthy tok \<and> \<not> accessToken t" for t tok
  proof -
    from that have a: "\<not> truthy tok" and b: "\<not> accessToken t" by blast+
    from setAuth_stored [OF a b] show ?thesis by blast
  qed
  from 1 2 3 4 5 resume setAuth_finally_pending 8 9 10 11 12 show ?thesis by blast
qed

text \<open>The client \<open>client_two\<close> with a token provider, after one call and after two calls of
  \<^verbatim>\<open>setAuth()\<close> in a row.\<close>

lemma setAuth_once:
  "snd (setAuth K0 (client_two\<lparr>accessToken := True\<rparr>) None)
     = client_two\<lparr>accessToken := True, next_promise := 1, trace := [AccessTokenCall],
                  awaiting_accessToken := [0], authPromise := Some 0,
                  awaiting_authPromise := [0]\<rparr>"
  by (simp add: setAuth_def performAuth_def emit_def Let_def client_two_def client_lobby_def
      client0_def)

lemma setAuth_twice:
  "snd (setAuth K0 (snd (setAuth K0 (client_two\<lparr>accessToken := True\<rparr>) None)) None)
     = client_waiting"
  by (simp add: setAuth_def performAuth_def emit_def Let_def client_waiting_def client_two_def
      client_lobby_def client0_def)

theorem setAuth_starts_own_operation_witness:
  "accessToken (client_two\<lparr>accessToken := True\<rparr>) \<and> \<not> truthy None
   \<and> fst (setAuth K0 (client_two\<lparr>accessToken := True\<rparr>) None) = 0
   \<and> fst (setAuth K0 (snd (setAuth K0 (client_two\<lparr>accessToken := True\<rparr>) None)) None) = 1
   \<and> trace (snd (setAuth K0 (snd (setAuth K0 (client_two\<lparr>accessToken := True\<rparr>) None)) None))
       = [AccessTokenCall, AccessTokenCall]
   \<and> 0 \<in> set (awaiting_accessToken client_waiting)
   \<and> accessToken_settles K0 client_waiting 0 (Inr (Some ''a''))
       = settle 0 None
           (performAuth_resume K0
              (client_waiting\<lparr>awaiting_accessToken :=
                  removeAll 0 (awaiting_accessToken client_waiting)\<rparr>) (Some ''a''))
   \<and> map_of (settled client_waiting) 0 = None
   \<and> setAuth_finally client_waiting 0 = client_waiting
   \<and> 0 \<in> set (awaiting_authPromise
         (accessToken_settles K0 (snd (setAuth K0 (client_two\<lparr>accessToken := True\<rparr>) None)) 0
            (Inl ''expired'')))
   \<and> map_of (settled
         (accessToken_settles K0 (snd (setAuth K0 (client_two\<lparr>accessToken := True\<rparr>) None)) 0
            (Inl ''expired''))) 0 = Some (Some ''expired'')
   \<and> authPromise
         (accessToken_settles K0 (snd (setAuth K0 (client_two\<lparr>accessToken := True\<rparr>) None)) 0
            (Inl ''expired'')) = Some 0
   \<and> authPromise (setAuth_finally
         (accessToken_settles K0 (snd (setAuth K0 (client_two\<lparr>accessToken := True\<rparr>) None)) 0
            (Inl ''expired'')) 0) = None
   \<and> truthy (Some ''abc'')
   \<and> authPromise (snd (setAuth K0 client_two (Some ''abc''))) = Some 0
   \<and> accessTokenValue (snd (setAuth K0 client_two (Some ''abc''))) = Some ''abc''
   \<and> \<not> accessToken client_two
   \<and> trace (snd (setAuth K0 client_two None))
       = [SocketLog ''auth'' ''performing auth'' (Some (JObj [(''token'', JNull)]))]"
proof -
  let ?c = "client_two\<lparr>accessToken := True\<rparr>"
  let ?t = "accessToken_settles K0 (snd (setAuth K0 ?c None)) 0 (Inl ''expired'')"
  have a: "accessToken ?c" by simp
  have b: "\<not> truthy None" by simp
  have t: "trace ?c = []"
    by (simp add: client_two_def client_lobby_def client0_def)
  note th = setAuth_starts_own_operation [OF a b b, of K0]
  have c: "trace (snd (setAuth K0 (snd (setAuth K0 ?c None)) None))
       = [AccessTokenCall, AccessTokenCall]"
    using th [THEN conjunct2, THEN conjunct2, THEN conjunct2, THEN conjunct1] unfolding t
    by simp
  have np: "next_promise ?c = 0" "next_promise client_two = 0"
    by (simp_all add: client_two_def client_lobby_def client0_def)
  from th have "fst (setAuth K0 ?c None) = next_promise ?c" by blast
  then have d: "fst (setAuth K0 ?c None) = 0" unfolding np .
  have e: "fst (setAuth K0 (snd (setAuth K0 ?c None)) None) = 1"
    by (simp add: setAuth_def performAuth_def emit_def client_two_def client_lobby_def
        client0_def Let_def)
  have h: "0 \<in> set (awaiting_accessToken client_waiting)"
    by (simp add: client_waiting_def)
  from th h have r: "accessToken_settles K0 client_waiting 0 (Inr (Some ''a''))
       = settle 0 None
           (performAuth_resume K0
              (client_waiting\<lparr>awaiting_accessToken :=
                  removeAll 0 (awaiting_accessToken client_waiting)\<rparr>) (Some ''a''))"
    by blast
  have f: "map_of (settled client_waiting) 0 = None"
    by (simp add: client_waiting_def client_two_def client_lobby_def client0_def)
  from th f have g: "setAuth_finally client_waiting 0 = client_waiting" by blast
  have rej: "?t = client_two\<lparr>accessToken := True, next_promise := 1,
                  trace := [AccessTokenCall], awaiting_accessToken := [],
                  authPromise := Some 0, awaiting_authPromise := [0],
                  settled := [(0, Some ''expired'')]\<rparr>"
    unfolding setAuth_once
    by (simp add: accessToken_settles_def settle_def client_two_def client_lobby_def
        client0_def)
  have i: "0 \<in> set (awaiting_authPromise ?t)" unfolding rej by simp
  have j: "map_of (settled ?t) 0 = Some (Some ''expired'')" unfolding rej by simp
  have k: "authPromise ?t = Some 0" unfolding rej by simp
  from th i j k have l: "authPromise (setAuth_finally ?t 0) = None" by blast
  have m: "truthy (Some ''abc'')" by simp
  from th have "authPromise (snd (setAuth K0 client_two (Some ''abc'')))
      = Some (fst (setAuth K0 client_two (Some ''abc'')))
    \<and> fst (setAuth K0 client_two (Some ''abc'')) = next_promise client_two" by blast
  then have n: "authPromise (snd (setAuth K0 client_two (Some ''abc''))) = Some 0"
    unfolding np by simp
  from th m have o: "accessTokenValue (snd (setAuth K0 client_two (Some ''abc''))) = Some ''abc''"
    by blast
  have q: "\<not> accessToken client_two"
    by (simp add: client_two_def client_lobby_def client0_def)
  have tv: "trace client_two = []" "accessTokenValue client_two = None"
    by (simp_all add: client_two_def client_lobby_def client0_def)
  from th b q have "trace (snd (setAuth K0 client_two None))
       = trace client_two @ [SocketLog ''auth'' ''performing auth''
                              (Some (JObj [(''token'', js_token (accessTokenValue client_two))]))]"
    by blast
  then have u: "trace (snd (setAuth K0 client_two None))
       = [SocketLog ''auth'' ''performing auth'' (Some (JObj [(''token'', JNull)]))]"
    unfolding tv by simp
  from a b c d e h r f g i j k l m n o q u show ?thesis by blast
qed

text \<open>
  Claim C1 as stated fails. Two calls of \<^verbatim>\<open>setAuth()\<close> in a row call the token provider
  twice. When the provider then yields \<^verbatim>\<open>"a"\<close> to the first operation and \<^verbatim>\<open>"b"\<close> to the
  second, the registry is gone through twice (the joined channel gets two pushes). And
  when the first operation has settled and the cleanup of the first call has run, the
  stored handle is \<^verbatim>\<open>null\<close> although the second operation is still waiting for its token.
\<close>

theorem setAuth_single_flight_counterexample:
  "count_list
     (trace (snd (setAuth K0 (snd (setAuth K0 (client_two\<lparr>accessToken := True\<rparr>) None)) None)))
     AccessTokenCall = 2
   \<and> filter (\<lambda>e. case e of ChannelPush i ev pl \<Rightarrow> True | _ \<Rightarrow> False)
       (trace (accessToken_settles K0
                 (accessToken_settles K0
                    (snd (setAuth K0 (snd (setAuth K0 (client_two\<lparr>accessToken := True\<rparr>) None))
                            None))
                    0 (Inr (Some ''a'')))
                 1 (Inr (Some ''b''))))
     = [ChannelPush 1 ''access_token'' [(''access_token'', JStr ''a'')],
        ChannelPush 1 ''access_token'' [(''access_token'', JStr ''b'')]]
   \<and> authPromise
        (setAuth_finally
           (accessToken_settles K0
              (snd (setAuth K0 (snd (setAuth K0 (client_two\<lparr>accessToken := True\<rparr>) None)) None))
              0 (Inr (Some ''a'')))
           0) = None
   \<and> awaiting_accessToken
        (setAuth_finally
           (accessToken_settles K0
              (snd (setAuth K0 (snd (setAuth K0 (client_two\<lparr>accessToken := True\<rparr>) None)) None))
              0 (Inr (Some ''a'')))
           0) = [1]"
proof -
  have s3: "accessToken_settles K0
              (snd (setAuth K0 (snd (setAuth K0 (client_two\<lparr>accessToken := True\<rparr>) None)) None))
              0 (Inr (Some ''a''))
      = client_two\<lparr>accessToken := True, next_promise := 2,
          awaiting_accessToken := [1], authPromise := Some 1,
          awaiting_authPromise := [0, 1], accessTokenValue := Some ''a'',
          trace := [AccessTokenCall, AccessTokenCall,
                    SocketLog ''auth'' ''performing auth'' (Some (JObj [(''token'', JStr ''a'')]))]
                   @ auth_effects K0 (Some ''a'') lobby @ auth_effects K0 (Some ''a'') room,
          settled := [(0, None)]\<rparr>"
    unfolding setAuth_twice
    by (simp add: accessToken_settles_def settle_def performAuth_resume_eq emit_def
        client_waiting_def client_two_def client_lobby_def client0_def)
  have 1: "count_list
     (trace (snd (setAuth K0 (snd (setAuth K0 (client_two\<lparr>accessToken := True\<rparr>) None)) None)))
     AccessTokenCall = 2"
    unfolding setAuth_twice by (simp add: client_waiting_def)
  have 2: "filter (\<lambda>e. case e of ChannelPush i ev pl \<Rightarrow> True | _ \<Rightarrow> False)
       (trace (accessToken_settles K0
                 (accessToken_settles K0
                    (snd (setAuth K0 (snd (setAuth K0 (client_two\<lparr>accessToken := True\<rparr>) None))
                            None))
                    0 (Inr (Some ''a'')))
                 1 (Inr (Some ''b''))))
     = [ChannelPush 1 ''access_token'' [(''access_token'', JStr ''a'')],
        ChannelPush 1 ''access_token'' [(''access_token'', JStr ''b'')]]"
    unfolding s3
    by (simp add: accessToken_settles_def settle_def performAuth_resume_eq emit_def
        auth_effects_lobby_room client_two_def client_lobby_def client0_def)
  have 3: "authPromise
        (setAuth_finally
           (accessToken_settles K0
              (snd (setAuth K0 (snd (setAuth K0 (client_two\<lparr>accessToken := True\<rparr>) None)) None))
              0 (Inr (Some ''a'')))
           0) = None"
    and 4: "awaiting_accessToken
        (setAuth_finally
           (accessToken_settles K0
              (snd (setAuth K0 (snd (setAuth K0 (client_two\<lparr>accessToken := True\<rparr>) None)) None))
              0 (Inr (Some ''a'')))
           0) = [1]"
    unfolding s3
    by (simp_all add: setAuth_finally_def client_two_def client_lobby_def client0_def)
  from 1 2 3 4 show ?thesis by blast
qed

section \<open>The registry along a history\<close>

lemma channels_emit [simp]: "channels (emit es s) = channels s"
  by (simp add: emit_def)

lemma channels_performAuth_resume [simp]: "channels (performAuth_resume K s tok) = channels s"
  by (simp add: performAuth_resume_eq)

lemma channels_performAuth [simp]: "channels (performAuth K s tok p) = channels s"
  by (simp add: performAuth_def settle_def)

lemma channels_setAuth [simp]: "channels (snd (setAuth K s tok)) = channels s"
  by (simp add: setAuth_def Let_def)

lemma channels_setAuthSafely [simp]: "channels (setAuthSafely K s context) = channels s"
proof -
  have "setAuthSafely K s context
      = (snd (setAuth K s None))\<lparr>catch_handlers :=
           catch_handlers (snd (setAuth K s None)) @ [(fst (setAuth K s None), context)]\<rparr>"
    by (simp add: setAuthSafely_def case_prod_unfold Let_def)
  then show ?thesis by simp
qed

lemma channels_connect [simp]: "channels (connect K s) = channels s"
  by (simp add: connect_def PhoenixSocket_connect_def Let_def)

lemma channels_disconnect [simp]: "channels (disconnect s code reason) = channels s"
  by (simp add: disconnect_eq)

lemma channels_report [simp]: "channels (report s st) = channels s"
  by (simp add: report_def log_def PhoenixSocket_log_def Let_def split: option.splits)

lemma channels_makeRef [simp]: "channels (snd (makeRef s)) = channels s"
  by (simp add: makeRef_def Let_def)

lemma channels_sendHeartbeat [simp]: "channels (sendHeartbeat K s) = channels s"
  by (simp add: sendHeartbeat_def Let_def case_prod_unfold log_def PhoenixSocket_log_def
      PhoenixSocket_disconnect_def push_def PhoenixSocket_push_def)

lemma channels_accessToken_settles [simp]: "channels (accessToken_settles K s p r) = channels s"
  by (simp add: accessToken_settles_def settle_def Let_def split: sum.splits)

lemma channels_setAuth_finally [simp]: "channels (setAuth_finally s p) = channels s"
  by (simp add: setAuth_finally_def log_def PhoenixSocket_log_def Let_def split: option.splits)

lemma channels_run_task [simp]: "channels (run_task t s) = channels s"
  by (cases t) (simp add: heartbeat_timeout_fallback_def)

lemma distinct_topics_filter:
  "distinct (map topic cs) \<Longrightarrow> distinct (map topic (filter P cs))"
  by (rule distinct_map_filter)

text \<open>No event brings a second session of a topic into the registry.\<close>

lemma step_distinct_topics:
  assumes "distinct (map topic (channels s))"
  shows "distinct (map topic (channels (step K s e)))"
proof (cases e)
  case (GetChannel t params)
  show ?thesis
  proof (cases "channel s t params")
    case (Inl err)
    with GetChannel assms show ?thesis by simp
  next
    case (Inr x)
    obtain c s' where x: "x = (c, s')" by (cases x)
    with Inr channel_first [of s t params c s'] assms
    have "distinct (map topic (channels s'))" by simp
    with GetChannel Inr x show ?thesis by simp
  qed
next
  case (RemoveChannel ch ack)
  with assms show ?thesis by (simp add: removeChannel_channels distinct_topics_filter)
next
  case (RemoveAllChannels ack)
  then show ?thesis by (simp add: removeAllChannels_eq)
next
  case (Remove ch)
  with assms show ?thesis by (simp add: client_remove_def distinct_topics_filter)
next
  case (ChannelJoined i)
  let ?f = "\<lambda>c. if oid c = i
                  then c\<lparr>phoenixChannel := (phoenixChannel c)\<lparr>joinedOnce := True\<rparr>\<rparr>
                  else c"
  have m: "map (topic \<circ> ?f) cs = map topic cs" for cs
    by (induction cs) auto
  have "channels (step K s e) = map ?f (channels s)"
    unfolding ChannelJoined by simp
  then have "map topic (channels (step K s e)) = map (topic \<circ> ?f) (channels s)"
    by (simp only: map_map)
  then have "map topic (channels (step K s e)) = map topic (channels s)"
    by (simp only: m)
  with assms show ?thesis by (simp only:)
qed (use assms in \<open>simp_all add: push_def PhoenixSocket_push_def onHeartbeat_def\<close>)

lemma run_distinct_topics:
  "distinct (map topic (channels s)) \<Longrightarrow> distinct (map topic (channels (run K s es)))"
  unfolding run_def
proof (induction es arbitrary: s)
  case Nil
  then show ?case by simp
next
  case (Cons e es)
  from Cons.prems have "distinct (map topic (channels (step K s e)))"
    by (rule step_distinct_topics)
  then show ?case using Cons.IH by simp
qed

lemma new_RealtimeClient_channels:
  "new_RealtimeClient opts = Inr s \<Longrightarrow> channels s = []"
  by (auto simp: new_RealtimeClient_def split: option.splits if_splits)

text \<open>
  Claim C7. After a call \<^verbatim>\<open>channel(t, opts1)\<close> that returned a session, a call
  \<^verbatim>\<open>channel(t, opts2)\<close> returns that same session, whatever the two options are: the
  second call constructs nothing and registers nothing, and leaves the client as it was
  (the options object it is given is not read or written; only when the argument is
  omitted, the default object made on entry is new in the store). The session returned is
  the one the registry holds for the topic \<^verbatim>\<open>realtime:\<close> followed by \<open>t\<close>, and a registry
  whose sessions have pairwise different topics still has after the call. Along every
  history of a client from its construction the sessions of the registry have pairwise
  different topics.
\<close>

theorem channel_idempotent:
  assumes "channel s t opts1 = Inr (c1, s1)"
  shows "channel s1 t opts2 =
           Inr (c1, case opts2 of Some a \<Rightarrow> s1
                    | None \<Rightarrow> snd (alloc_options s1 \<lparr>config = Some []\<rparr>))
       \<and> (\<forall>c2 s2. channel s1 t opts2 = Inr (c2, s2) \<longrightarrow>
             c2 = c1 \<and> oid c2 = oid c1 \<and> channels s2 = channels s1)
       \<and> topic c1 = ''realtime:'' @ t
       \<and> find (\<lambda>c. topic c = ''realtime:'' @ t) (channels s1) = Some c1
       \<and> (distinct (map topic (channels s)) \<longrightarrow> distinct (map topic (channels s1)))
       \<and> (\<forall>opts s0 es. new_RealtimeClient opts = Inr s0 \<longrightarrow>
             distinct (map topic (channels (run K s0 es))))"
proof -
  note f = channel_first [OF assms]
  then have fnd: "find (\<lambda>c. topic c = ''realtime:'' @ t) (channels s1) = Some c1" by blast
  note second = channel_found [OF fnd, of opts2]
  have "c2 = c1 \<and> oid c2 = oid c1 \<and> channels s2 = channels s1"
    if "channel s1 t opts2 = Inr (c2, s2)" for c2 s2
    using that unfolding second by (cases opts2) auto
  moreover have "distinct (map topic (channels (run K s0 es)))"
    if "new_RealtimeClient opts = Inr s0" for opts s0 es
  proof (rule run_distinct_topics)
    from that have "channels s0 = []" by (rule new_RealtimeClient_channels)
    then show "distinct (map topic (channels s0))" by simp
  qed
  ultimately show ?thesis using f second by blast
qed

lemma run_lobby:
  "run K0 client0 [NewOptions \<lparr>config = Some []\<rparr>, GetChannel ''lobby'' (Some 0),
                   GetChannel ''lobby'' (Some 0)] = client_lobby"
proof -
  have "find (\<lambda>c. topic c = ''realtime:'' @ ''lobby'') (channels client_lobby) = Some lobby"
    by (simp add: client_lobby_def lobby_def)
  from channel_found [OF this, of "Some 0"]
  have "channel client_lobby ''lobby'' (Some 0) = Inr (lobby, client_lobby)" by simp
  then show ?thesis by (simp add: run_def channel_lobby)
qed

theorem channel_idempotent_witness:
  "channel (snd (alloc_options client0 \<lparr>config = Some []\<rparr>)) ''lobby'' (Some 0)
     = Inr (lobby, client_lobby)
   \<and> channel client_lobby ''lobby'' (Some 7) = Inr (lobby, client_lobby)
   \<and> topic lobby = ''realtime:lobby''
   \<and> distinct (map topic (channels client_lobby))
   \<and> new_RealtimeClient (Some \<lparr>opt_apikey = Some ''k'', opt_accessToken = False,
          opt_heartbeatCallback = None\<rparr>) = Inr client0
   \<and> distinct (map topic (channels
         (run K0 client0 [NewOptions \<lparr>config = Some []\<rparr>, GetChannel ''lobby'' (Some 0),
                          GetChannel ''lobby'' (Some 0)])))
   \<and> channels (run K0 client0 [NewOptions \<lparr>config = Some []\<rparr>, GetChannel ''lobby'' (Some 0),
                          GetChannel ''lobby'' (Some 0)]) = [lobby]"
proof -
  have a: "channel (snd (alloc_options client0 \<lparr>config = Some []\<rparr>)) ''lobby'' (Some 0)
     = Inr (lobby, client_lobby)" by (rule channel_lobby)
  have d: "distinct (map topic (channels (snd (alloc_options client0 \<lparr>config = Some []\<rparr>))))"
    by (simp add: client0_def)
  note th = channel_idempotent [OF a, of "Some 7" K0]
  have b: "channel client_lobby ''lobby'' (Some 7) = Inr (lobby, client_lobby)"
    using th [THEN conjunct1] by simp
  have c: "topic lobby = ''realtime:lobby''"
    using th [THEN conjunct2, THEN conjunct2, THEN conjunct1] by simp
  have e: "distinct (map topic (channels client_lobby))"
    using th d by blast
  note n = client0_constructed
  from th n have g: "distinct (map topic (channels
         (run K0 client0 [NewOptions \<lparr>config = Some []\<rparr>, GetChannel ''lobby'' (Some 0),
                          GetChannel ''lobby'' (Some 0)])))"
    by blast
  have h: "channels (run K0 client0 [NewOptions \<lparr>config = Some []\<rparr>, GetChannel ''lobby'' (Some 0),
                          GetChannel ''lobby'' (Some 0)]) = [lobby]"
    unfolding run_lobby by (simp add: client_lobby_def)
  from a b c e n g h show ?thesis by blast
qed

section \<open>Properties of the channel options\<close>

lemma map_of_spread:
  "distinct (map fst b) \<Longrightarrow> map_of (spread a b) = map_of a ++ map_of b"
proof (induction b arbitrary: a)
  case Nil
  show ?case by (simp add: spread_def)
next
  case (Cons kv b)
  obtain k v where kv: "kv = (k, v)" by (cases kv)
  from Cons.prems kv have d: "distinct (map fst b)" and nin: "k \<notin> fst ` set b" by simp_all
  from nin have nd: "k \<notin> dom (map_of b)" by (simp add: dom_map_of_conv_image_fst)
  have "spread a (kv # b) = spread (AList.update k v a) b"
    by (simp add: spread_def kv)
  also have "map_of \<dots> = map_of (AList.update k v a) ++ map_of b"
    by (rule Cons.IH [OF d])
  also have "\<dots> = ((map_of a)(k \<mapsto> v)) ++ map_of b"
    by (simp add: update_conv')
  also have "\<dots> = (map_of a ++ map_of b)(k \<mapsto> v)"
    by (rule map_add_upd_left [OF nd])
  also have "\<dots> = map_of a ++ map_of (kv # b)"
    by (simp add: kv)
  finally show ?case .
qed

text \<open>
  Claim C10. When a channel is constructed from an options object, the caller's object is
  written in place: \<^verbatim>\<open>translateRealtimeOptionsToChannelParams\<close> replaces its \<^verbatim>\<open>config\<close> by
  the spread of the defaults
  \<^verbatim>\<open>{broadcast: {ack: false, self: false}, presence: {key: "", enabled: false}, private: false}\<close>
  and the caller's own entries, in which a key has the caller's value when the caller gave
  one and the default otherwise, and it returns the address of that same object, which the
  constructor of \<^verbatim>\<open>PhoenixChannel\<close> hands to the channel as its params. No other object of
  the store changes.
\<close>

theorem translate_mutates_options:
  assumes "h a = Some opts"
  shows "translateRealtimeOptionsToChannelParams h a
           = Inr (h(a \<mapsto> opts\<lparr>config := Some (spread default_config (config_entries opts))\<rparr>), a)
       \<and> new_PhoenixChannel h tpc a
           = Inr (h(a \<mapsto> opts\<lparr>config := Some (spread default_config (config_entries opts))\<rparr>),
                  \<lparr>ch_topic = tpc, ch_params = a, joinedOnce = False\<rparr>)
       \<and> (distinct (map fst (config_entries opts)) \<longrightarrow>
            map_of (spread default_config (config_entries opts))
              = map_of default_config ++ map_of (config_entries opts))
       \<and> (\<forall>k. distinct (map fst (config_entries opts)) \<longrightarrow>
            map_of (spread default_config (config_entries opts)) k
              = (case map_of (config_entries opts) k of
                   Some v \<Rightarrow> Some v
                 | None \<Rightarrow> map_of default_config k))
       \<and> (\<forall>b. b \<noteq> a \<longrightarrow>
            (h(a \<mapsto> opts\<lparr>config := Some (spread default_config (config_entries opts))\<rparr>)) b
              = h b)"
proof -
  have 1: "translateRealtimeOptionsToChannelParams h a
           = Inr (h(a \<mapsto> opts\<lparr>config := Some (spread default_config (config_entries opts))\<rparr>), a)"
    using assms by (simp add: translateRealtimeOptionsToChannelParams_def)
  have 2: "new_PhoenixChannel h tpc a
           = Inr (h(a \<mapsto> opts\<lparr>config := Some (spread default_config (config_entries opts))\<rparr>),
                  \<lparr>ch_topic = tpc, ch_params = a, joinedOnce = False\<rparr>)"
    by (simp add: new_PhoenixChannel_def 1)
  have 3: "map_of (spread default_config (config_entries opts))
              = map_of default_config ++ map_of (config_entries opts)"
    if "distinct (map fst (config_entries opts))"
    using that by (rule map_of_spread)
  have 4: "map_of (spread default_config (config_entries opts)) k
              = (case map_of (config_entries opts) k of
                   Some v \<Rightarrow> Some v
                 | None \<Rightarrow> map_of default_config k)"
    if "distinct (map fst (config_entries opts))" for k
    unfolding 3 [OF that] by (simp add: map_add_def)
  have 5: "(h(a \<mapsto> opts\<lparr>config := Some (spread default_config (config_entries opts))\<rparr>)) b
              = h b" if "b \<noteq> a" for b
    using that by simp
  from 1 2 3 4 5 show ?thesis by blast
qed

theorem translate_mutates_options_witness:
  "[0 \<mapsto> private_options] (0::nat) = Some private_options
   \<and> translateRealtimeOptionsToChannelParams [0 \<mapsto> private_options] 0
     = Inr ([0 \<mapsto> \<lparr>config = Some
                [(''broadcast'', JObj [(''ack'', JBool False), (''self'', JBool False)]),
                 (''presence'', JObj [(''key'', JStr []), (''enabled'', JBool False)]),
                 (''private'', JBool True)]\<rparr>], 0)
   \<and> distinct (map fst (config_entries private_options))
   \<and> map_of (spread default_config (config_entries private_options)) ''private''
       = Some (JBool True)"
proof -
  have a: "[0 \<mapsto> private_options] (0::nat) = Some private_options" by simp
  have d: "distinct (map fst (config_entries private_options))"
    by (simp add: config_entries_def private_options_def)
  have s: "spread default_config (config_entries private_options)
      = [(''broadcast'', JObj [(''ack'', JBool False), (''self'', JBool False)]),
         (''presence'', JObj [(''key'', JStr []), (''enabled'', JBool False)]),
         (''private'', JBool True)]"
    by (simp add: spread_def config_entries_def default_config_def private_options_def)
  note th = translate_mutates_options [of "[0 \<mapsto> private_options]" 0 private_options, OF a]
  have b: "translateRealtimeOptionsToChannelParams [0 \<mapsto> private_options] 0
     = Inr ([0 \<mapsto> \<lparr>config = Some
                [(''broadcast'', JObj [(''ack'', JBool False), (''self'', JBool False)]),
                 (''presence'', JObj [(''key'', JStr []), (''enabled'', JBool False)]),
                 (''private'', JBool True)]\<rparr>], 0)"
    using th [THEN conjunct1] unfolding s by (simp add: private_options_def)
  from th d have "map_of (spread default_config (config_entries private_options)) ''private''
       = (case map_of (config_entries private_options) ''private'' of
            Some v \<Rightarrow> Some v
          | None \<Rightarrow> map_of default_config ''private'')"
    by blast
  then have c: "map_of (spread default_config (config_entries private_options)) ''private''
       = Some (JBool True)"
    by (simp add: config_entries_def private_options_def)
  from a b c d show ?thesis by blast
qed

text \<open>Seen from \<^verbatim>\<open>RealtimeClient.channel\<close>: when no session of the topic exists, the call
  makes one whose params are the caller's object, and the caller's object has the merged
  \<^verbatim>\<open>config\<close> afterwards.\<close>

lemma channel_mutates_options:
  assumes "options s a = Some opts"
    and "find (\<lambda>c. topic c = ''realtime:'' @ t) (channels s) = None"
  shows "\<exists>c s'. channel s t (Some a) = Inr (c, s')
           \<and> ch_params (phoenixChannel c) = a
           \<and> options s' a
               = Some (opts\<lparr>config := Some (spread default_config (config_entries opts))\<rparr>)"
  using assms
  by (simp add: channel_def getChannels_def new_RealtimeChannel_def new_PhoenixChannel_def
      translateRealtimeOptionsToChannelParams_def)

end
